theory Spec2Isabelle
  imports Complex_Main "HOL-Library.Log_Nat"
begin

section \<open>TelemetryRelay: a shallow embedding of \<open>app.py\<close>\<close>

text \<open>
  The plugin reads a handful of values from the simulator on every tick, limits itself to
  one publish per \<open>SEND_INTERVAL\<close>, formats a flat record and hands it to a UDP socket.
  The embedding follows the source function by function. Python floats are IEEE-754
  binary64 values with round-to-nearest-even, Python integers are unbounded, and every
  exception the code can meet is a value of a sum type.
\<close>

subsection \<open>Python floats\<close>

text \<open>
  A float is a finite value (kept as the exact rational it denotes, \<open>Fin 0\<close> being
  \<open>+0.0\<close>), negative zero, an infinity or NaN. A finite value is well formed when
  rounding leaves it alone (\<open>is_double\<close>).
\<close>

datatype pyfloat = Fin rat | NegZero | PInf | NInf | NaN

text \<open>\<open>ilog2 q\<close> is the binary exponent of a non-zero rational: \<open>2 ^ ilog2 q \<le> \<bar>q\<bar> < 2 ^ (ilog2 q + 1)\<close>.\<close>

definition ilog2 :: "rat \<Rightarrow> int" where
  "ilog2 q = (case quotient_of \<bar>q\<bar> of (a, b) \<Rightarrow>
     (let d = bitlen a - bitlen b in if 2 powi d \<le> \<bar>q\<bar> then d else d - 1))"

definition round_half_even :: "rat \<Rightarrow> int" where
  "round_half_even q = (let f = \<lfloor>q\<rfloor>; d = q - of_int f in
     if d < 1 / 2 then f else if 1 / 2 < d then f + 1 else if even f then f else f + 1)"

text \<open>The unit in the last place of the binade of \<open>q\<close>: 53 significant bits, subnormals below \<open>2 ^ -1022\<close>.\<close>

definition ulp :: "rat \<Rightarrow> rat" where
  "ulp q = 2 powi (max (ilog2 q) (- 1022) - 52)"

text \<open>The multiple of the unit in the last place that is nearest to \<open>q\<close>, ties to even.\<close>

definition nearest :: "rat \<Rightarrow> rat" where
  "nearest q = of_int (round_half_even (q / ulp q)) * ulp q"

text \<open>Rounding an exact result to binary64; overflow gives an infinity, underflow a signed zero.\<close>

definition rnd :: "rat \<Rightarrow> pyfloat" where
  "rnd q = (if q = 0 then Fin 0 else
     (let v = nearest q
      in if 2 ^ 1024 \<le> \<bar>v\<bar> then (if 0 < q then PInf else NInf)
         else if v = 0 then (if q < 0 then NegZero else Fin 0)
         else Fin v))"

definition is_double :: "rat \<Rightarrow> bool" where
  "is_double q \<longleftrightarrow> rnd q = Fin q"

text \<open>A decimal literal of the source or of a test denotes the nearest double.\<close>

definition float_lit :: "rat \<Rightarrow> pyfloat" where
  "float_lit q = rnd q"

fun fval :: "pyfloat \<Rightarrow> rat" where
  "fval (Fin q) = q"
| "fval _ = 0"

fun is_nan :: "pyfloat \<Rightarrow> bool" where
  "is_nan NaN = True"
| "is_nan _ = False"

fun is_inf :: "pyfloat \<Rightarrow> bool" where
  "is_inf PInf = True"
| "is_inf NInf = True"
| "is_inf _ = False"

fun is_zero :: "pyfloat \<Rightarrow> bool" where
  "is_zero (Fin q) = (q = 0)"
| "is_zero NegZero = True"
| "is_zero _ = False"

text \<open>The sign bit.\<close>

fun fneg :: "pyfloat \<Rightarrow> bool" where
  "fneg (Fin q) = (q < 0)"
| "fneg NegZero = True"
| "fneg NInf = True"
| "fneg _ = False"

text \<open>\<open>x < y\<close> and \<open>x <= y\<close> on floats: false as soon as one side is NaN.\<close>

fun float_lt :: "pyfloat \<Rightarrow> pyfloat \<Rightarrow> bool" where
  "float_lt NaN _ = False"
| "float_lt _ NaN = False"
| "float_lt _ NInf = False"
| "float_lt NInf _ = True"
| "float_lt PInf _ = False"
| "float_lt _ PInf = True"
| "float_lt a b = (fval a < fval b)"

definition float_le :: "pyfloat \<Rightarrow> pyfloat \<Rightarrow> bool" where
  "float_le a b \<longleftrightarrow> \<not> is_nan a \<and> \<not> is_nan b \<and> \<not> float_lt b a"

text \<open>\<open>x - y\<close> on floats.\<close>

fun float_sub :: "pyfloat \<Rightarrow> pyfloat \<Rightarrow> pyfloat" where
  "float_sub NaN _ = NaN"
| "float_sub _ NaN = NaN"
| "float_sub PInf PInf = NaN"
| "float_sub NInf NInf = NaN"
| "float_sub PInf _ = PInf"
| "float_sub NInf _ = NInf"
| "float_sub _ PInf = NInf"
| "float_sub _ NInf = PInf"
| "float_sub NegZero (Fin q) = (if q = 0 then NegZero else rnd (- q))"
| "float_sub a b = rnd (fval a - fval b)"

text \<open>\<open>x * y\<close> on floats.\<close>

definition float_mul :: "pyfloat \<Rightarrow> pyfloat \<Rightarrow> pyfloat" where
  "float_mul a b =
     (if is_nan a \<or> is_nan b then NaN
      else if is_inf a \<or> is_inf b then
        (if is_zero a \<or> is_zero b then NaN else if fneg a \<noteq> fneg b then NInf else PInf)
      else if fval a * fval b = 0 then (if fneg a \<noteq> fneg b then NegZero else Fin 0)
      else rnd (fval a * fval b))"

text \<open>
  Division by a finite positive divisor, C's \<open>fmod\<close> and \<open>floor\<close>. The only divisor of the
  source is the constant 60, so the divisor is a positive rational.
\<close>

definition float_div_pos :: "pyfloat \<Rightarrow> rat \<Rightarrow> pyfloat" where
  "float_div_pos a w = (case a of Fin q \<Rightarrow> rnd (q / w) | other \<Rightarrow> other)"

definition trunc :: "rat \<Rightarrow> int" where
  "trunc q = (if 0 \<le> q then \<lfloor>q\<rfloor> else \<lceil>q\<rceil>)"

definition float_fmod :: "pyfloat \<Rightarrow> rat \<Rightarrow> pyfloat" where
  "float_fmod a w = (case a of
       Fin q \<Rightarrow> (let m = q - w * of_int (trunc (q / w)) in if m = 0 \<and> q < 0 then NegZero else Fin m)
     | NegZero \<Rightarrow> NegZero
     | _ \<Rightarrow> NaN)"

definition float_floor :: "pyfloat \<Rightarrow> pyfloat" where
  "float_floor a = (case a of Fin q \<Rightarrow> Fin (of_int \<lfloor>q\<rfloor>) | other \<Rightarrow> other)"

text \<open>
  \<open>vx // wx\<close> as CPython's \<open>float_divmod\<close> computes it: the remainder by \<open>fmod\<close>, the
  quotient \<open>(vx - mod) / wx\<close> in floating point, lowered by one when the remainder is
  negative, and snapped to the nearest integral value (\<open>floordiv += 1.0\<close> is written as
  the subtraction of \<open>-1.0\<close>, the same operation). A zero quotient takes the sign of \<open>vx\<close>.
\<close>

definition float_floor_div :: "pyfloat \<Rightarrow> rat \<Rightarrow> pyfloat" where
  "float_floor_div vx wx =
     (let md = float_fmod vx wx;
          dv = float_div_pos (float_sub vx md) wx;
          dv' = (if \<not> is_zero md \<and> float_lt md (Fin 0) then float_sub dv (Fin 1) else dv)
      in if \<not> is_zero dv' then
           (let fl = float_floor dv'
            in if float_lt (Fin (1 / 2)) (float_sub dv' fl) then float_sub fl (Fin (- 1)) else fl)
         else (if fneg vx then NegZero else Fin 0))"

subsection \<open>Exceptions and values\<close>

text \<open>
  The exceptions the interpreter raises in the code below, \<open>HostError\<close> for an instance
  of \<open>Exception\<close> raised by the simulator's API, the JSON encoder or the socket, and
  \<open>BaseError\<close> for an exception that is not an instance of \<open>Exception\<close>
  (\<open>KeyboardInterrupt\<close>, \<open>SystemExit\<close>, \<open>GeneratorExit\<close>), each tagged with a description.
  An \<open>except Exception\<close> clause catches the first kinds only.
\<close>

datatype exn =
  TypeError | ValueError | OverflowError | IndexError | ZeroDivisionError
  | HostError string | BaseError string

fun is_exception :: "exn \<Rightarrow> bool" where
  "is_exception (BaseError d) = False"
| "is_exception _ = True"

definition exn_bind :: "exn + 'a \<Rightarrow> ('a \<Rightarrow> exn + 'b) \<Rightarrow> exn + 'b" where
  "exn_bind m f = (case m of Inl e \<Rightarrow> Inl e | Inr v \<Rightarrow> f v)"

text \<open>A computation that raises, if at all, an instance of \<open>Exception\<close>.\<close>

definition catchable :: "exn + 'a \<Rightarrow> bool" where
  "catchable m = (case m of Inl e \<Rightarrow> is_exception e | Inr v \<Rightarrow> True)"

text \<open>What \<open>ac.getCarState\<close> can hand back: \<open>None\<close>, a number, or a sequence of such values.\<close>

datatype pyval = PNone | PInt int | PFloat pyfloat | PSeq "pyval list"

text \<open>\<open>float(n)\<close> as the mixed operators apply it: correctly rounded, \<open>OverflowError\<close> beyond the range.\<close>

definition float_of_int :: "int \<Rightarrow> exn + pyfloat" where
  "float_of_int n = (case rnd (of_int n) of
       PInf \<Rightarrow> Inl OverflowError | NInf \<Rightarrow> Inl OverflowError | f \<Rightarrow> Inr f)"

text \<open>\<open>int(v)\<close>: truncation towards zero for a float.\<close>

fun py_int :: "pyval \<Rightarrow> exn + int" where
  "py_int (PInt n) = Inr n"
| "py_int (PFloat (Fin q)) = Inr (trunc q)"
| "py_int (PFloat NegZero) = Inr 0"
| "py_int (PFloat NaN) = Inl ValueError"
| "py_int (PFloat _) = Inl OverflowError"
| "py_int _ = Inl TypeError"

fun truthy :: "pyval \<Rightarrow> bool" where
  "truthy PNone = False"
| "truthy (PInt n) = (n \<noteq> 0)"
| "truthy (PFloat f) = (\<not> is_zero f)"
| "truthy (PSeq vs) = (vs \<noteq> [])"

text \<open>\<open>v or 0\<close>.\<close>

definition py_or_zero :: "pyval \<Rightarrow> pyval" where
  "py_or_zero v = (if truthy v then v else PInt 0)"

text \<open>\<open>v * k\<close> for an integer literal \<open>k\<close>; a sequence is repeated.\<close>

fun py_mul :: "pyval \<Rightarrow> int \<Rightarrow> exn + pyval" where
  "py_mul (PInt n) k = Inr (PInt (n * k))"
| "py_mul (PFloat f) k = exn_bind (float_of_int k) (\<lambda>g. Inr (PFloat (float_mul f g)))"
| "py_mul (PSeq vs) k = Inr (PSeq (concat (replicate (nat k) vs)))"
| "py_mul PNone k = Inl TypeError"

text \<open>\<open>v <= k\<close> for an integer literal \<open>k\<close>; sequences and \<open>None\<close> do not compare with a number.\<close>

fun py_le :: "pyval \<Rightarrow> int \<Rightarrow> exn + bool" where
  "py_le (PInt n) k = Inr (n \<le> k)"
| "py_le (PFloat f) k = Inr (float_le f (Fin (of_int k)))"
| "py_le _ k = Inl TypeError"

text \<open>\<open>v // k\<close> for an integer literal \<open>k\<close> that is not negative (the source divides by 60).\<close>

fun py_floordiv :: "pyval \<Rightarrow> int \<Rightarrow> exn + pyval" where
  "py_floordiv (PInt n) k = (if k = 0 then Inl ZeroDivisionError else Inr (PInt (n div k)))"
| "py_floordiv (PFloat f) k =
     (if k = 0 then Inl ZeroDivisionError else Inr (PFloat (float_floor_div f (of_int k))))"
| "py_floordiv _ k = Inl TypeError"

text \<open>\<open>v - k\<close> for an integer \<open>k\<close>.\<close>

fun py_sub :: "pyval \<Rightarrow> int \<Rightarrow> exn + pyval" where
  "py_sub (PInt n) k = Inr (PInt (n - k))"
| "py_sub (PFloat f) k = exn_bind (float_of_int k) (\<lambda>g. Inr (PFloat (float_sub f g)))"
| "py_sub _ k = Inl TypeError"

fun py_len :: "pyval \<Rightarrow> exn + nat" where
  "py_len (PSeq vs) = Inr (length vs)"
| "py_len _ = Inl TypeError"

text \<open>\<open>v[i]\<close> for a non-negative literal index.\<close>

fun py_item :: "pyval \<Rightarrow> nat \<Rightarrow> exn + pyval" where
  "py_item (PSeq vs) i = (if i < length vs then Inr (vs ! i) else Inl IndexError)"
| "py_item _ i = Inl TypeError"

subsection \<open>String formatting\<close>

definition digit_char :: "int \<Rightarrow> char" where
  "digit_char d = char_of (48 + d)"

text \<open>The decimal digits of a non-negative integer.\<close>

function dec_digits :: "int \<Rightarrow> string" where
  "dec_digits n = (if n < 10 then [digit_char n] else dec_digits (n div 10) @ [digit_char (n mod 10)])"
  by pat_completeness auto
termination
  by (relation "measure nat") auto

declare dec_digits.simps [simp del]

text \<open>\<open>"%d" % n\<close>.\<close>

definition fmt_d :: "int \<Rightarrow> string" where
  "fmt_d n = (if n < 0 then ''-'' @ dec_digits (- n) else dec_digits n)"

text \<open>
  Fixed-point rendering of a magnitude with three decimals: the value is rounded to a
  multiple of 1/1000, ties to even, and zeros are put between the sign and the digits
  until the whole text is six characters wide.
\<close>

definition fixed3 :: "bool \<Rightarrow> rat \<Rightarrow> string" where
  "fixed3 neg a =
     (let n = round_half_even (a * 1000);
          frac = dec_digits (n mod 1000);
          body = dec_digits (n div 1000) @ ''.'' @ replicate (3 - length frac) CHR ''0'' @ frac;
          sgn = (if neg then ''-'' else '''')
      in sgn @ replicate (6 - length sgn - length body) CHR ''0'' @ body)"

text \<open>\<open>"%06.3f" % f\<close> for a float.\<close>

fun float_fmt_06_3f :: "pyfloat \<Rightarrow> string" where
  "float_fmt_06_3f (Fin q) = fixed3 (q < 0) \<bar>q\<bar>"
| "float_fmt_06_3f NegZero = fixed3 True 0"
| "float_fmt_06_3f PInf = ''000inf''"
| "float_fmt_06_3f NInf = ''-00inf''"
| "float_fmt_06_3f NaN = ''000nan''"

text \<open>\<open>"%06.3f" % v\<close>: an integer is converted to a float first.\<close>

fun fmt_06_3f :: "pyval \<Rightarrow> exn + string" where
  "fmt_06_3f (PInt n) = exn_bind (float_of_int n) (\<lambda>f. Inr (float_fmt_06_3f f))"
| "fmt_06_3f (PFloat f) = Inr (float_fmt_06_3f f)"
| "fmt_06_3f _ = Inl TypeError"

text \<open>
  \<open>str.lower\<close>. A character is a code point below 256; among those the upper-case
  letters are \<open>A\<close> to \<open>Z\<close> and the Latin-1 letters U+00C0 to U+00DE without the
  multiplication sign U+00D7, each 32 below its lower-case letter.
\<close>

definition lower_char :: "char \<Rightarrow> char" where
  "lower_char c =
     (let n = (of_char c :: int)
      in if (65 \<le> n \<and> n \<le> 90) \<or> (192 \<le> n \<and> n \<le> 214) \<or> (216 \<le> n \<and> n \<le> 222)
         then char_of (n + 32) else c)"

definition lower :: "string \<Rightarrow> string" where
  "lower s = map lower_char s"

subsection \<open>The lap-time formatter\<close>

text \<open>
  \<^verbatim>\<open>
  def _format_lap_time(seconds):
      if seconds is None or seconds <= 0:
          return ""
      minutes = int(seconds // 60)
      remainder = seconds - minutes * 60
      return "%d:%06.3f" % (minutes, remainder)
  \<close>
\<close>

definition format_lap_time :: "pyval \<Rightarrow> exn + string" where
  "format_lap_time seconds =
     (if seconds = PNone then Inr []
      else exn_bind (py_le seconds 0) (\<lambda>nonpos.
        if nonpos then Inr []
        else exn_bind (py_floordiv seconds 60) (\<lambda>q.
             exn_bind (py_int q) (\<lambda>minutes.
             exn_bind (py_sub seconds (minutes * 60)) (\<lambda>remainder.
             exn_bind (fmt_06_3f remainder) (\<lambda>r.
             Inr (fmt_d minutes @ '':'' @ r)))))))"

text \<open>
  The rendering the specification describes for a lap time of \<open>s\<close> seconds: the whole
  minutes \<open>M = floor (s / 60)\<close>, a colon, and the remainder \<open>s - 60 * M\<close> with three
  decimals, padded with zeros to six characters. All arithmetic is exact.
\<close>

definition lap_time_text :: "rat \<Rightarrow> string" where
  "lap_time_text s = fmt_d \<lfloor>s / 60\<rfloor> @ '':'' @ fixed3 False (s - 60 * of_int \<lfloor>s / 60\<rfloor>)"

subsection \<open>The host, the module state and the tick handler\<close>

text \<open>
  What the plugin calls during one tick, each call returning a value or raising: the name
  accessors and \<open>ac.getCarState\<close> of the simulator, \<open>json.dumps(payload).encode("utf-8")\<close>,
  \<open>_sock.sendto\<close> and \<open>ac.setText\<close>. \<open>err_text\<close> is \<open>"Telemetry error: %s" % err\<close>
  without its fixed prefix, which calls \<open>str(err)\<close> and so can raise as well.
\<close>

datatype cs = SpeedKMH | Gas | Brake | LapCount | LastLap | WorldPosition

datatype jval = JStr string | JVal pyval

type_synonym payload = "(string \<times> jval) list"

record host =
  getTrackName :: "exn + string"
  getDriverName :: "exn + string"
  getCarName :: "exn + string"
  getCarState :: "cs \<Rightarrow> exn + pyval"
  dumps :: "payload \<Rightarrow> exn + string"
  sendto :: "string \<Rightarrow> string \<times> int \<Rightarrow> exn option"
  setText :: "int \<Rightarrow> string \<Rightarrow> exn option"
  err_text :: "exn \<Rightarrow> exn + string"

text \<open>
  The module globals \<open>_last_send\<close> and \<open>_label\<close>, together with what the tick handler has
  done to the outside: the datagrams handed to the socket and the texts put on labels,
  oldest first.
\<close>

record state =
  last_send :: pyfloat
  label :: "int option"
  sent :: "(string \<times> string \<times> int) list"
  shown :: "(int \<times> string) list"

definition UDP_HOST :: string where
  "UDP_HOST = ''127.0.0.1''"

definition UDP_PORT :: int where
  "UDP_PORT = 41234"

definition SEND_INTERVAL :: pyfloat where
  "SEND_INTERVAL = float_lit (1 / 10)"

text \<open>The module as loaded: \<open>_last_send = 0.0\<close>; \<open>acMain\<close> stores the label it created.\<close>

definition init_state :: "int option \<Rightarrow> state" where
  "init_state l = \<lparr>last_send = Fin 0, label = l, sent = [], shown = []\<rparr>"

text \<open>\<open>int((v or 0) * 100)\<close>, the expression of the \<open>throttle\<close> and \<open>brake\<close> entries.\<close>

definition to_percent :: "pyval \<Rightarrow> exn + int" where
  "to_percent v = exn_bind (py_mul (py_or_zero v) 100) py_int"

text \<open>
  The three wrapped name accessors: \<open>except Exception: return ""\<close> turns an instance of
  \<open>Exception\<close> into the empty string and lets any other exception through.
\<close>

definition get_track_name :: "host \<Rightarrow> exn + string" where
  "get_track_name h = (case getTrackName h of
       Inl e \<Rightarrow> (if is_exception e then Inr [] else Inl e) | Inr n \<Rightarrow> Inr n)"

definition get_driver_name :: "host \<Rightarrow> exn + string" where
  "get_driver_name h = (case getDriverName h of
       Inl e \<Rightarrow> (if is_exception e then Inr [] else Inl e) | Inr n \<Rightarrow> Inr n)"

definition get_car_name :: "host \<Rightarrow> exn + string" where
  "get_car_name h = (case getCarName h of
       Inl e \<Rightarrow> (if is_exception e then Inr [] else Inl e) | Inr n \<Rightarrow> Inr n)"

text \<open>
  Lines 67 to 88 of \<open>acUpdate\<close>: the six reads, the position components and the dictionary,
  its entries evaluated in the order they are written.
\<close>

definition build_payload :: "host \<Rightarrow> exn + payload" where
  "build_payload h =
     exn_bind (getCarState h SpeedKMH) (\<lambda>speed.
     exn_bind (getCarState h Gas) (\<lambda>throttle.
     exn_bind (getCarState h Brake) (\<lambda>brake.
     exn_bind (getCarState h LapCount) (\<lambda>lap.
     exn_bind (getCarState h LastLap) (\<lambda>last_lap.
     exn_bind (getCarState h WorldPosition) (\<lambda>pos.
     exn_bind (py_len pos) (\<lambda>n0.
     exn_bind (if 0 < n0 then py_item pos 0 else Inr (PInt 0)) (\<lambda>x.
     exn_bind (py_len pos) (\<lambda>n2.
     exn_bind (if 2 < n2 then py_item pos 2 else Inr (PInt 0)) (\<lambda>y.
     exn_bind (get_track_name h) (\<lambda>track_name.
     let track = lower track_name in
     exn_bind (get_driver_name h) (\<lambda>driver.
     exn_bind (get_car_name h) (\<lambda>car.
     exn_bind (if lap \<noteq> PNone then py_int lap else Inr 0) (\<lambda>lap_count.
     exn_bind (format_lap_time last_lap) (\<lambda>last_lap_text.
     exn_bind (if speed \<noteq> PNone then py_int speed else Inr 0) (\<lambda>speed_int.
     exn_bind (to_percent throttle) (\<lambda>throttle_pct.
     exn_bind (to_percent brake) (\<lambda>brake_pct.
     Inr [(''track'', JStr track),
          (''driver'', JStr driver),
          (''car'', JStr car),
          (''lap'', JVal (PInt lap_count)),
          (''lastLap'', JStr last_lap_text),
          (''delta'', JStr []),
          (''speed'', JVal (PInt speed_int)),
          (''throttle'', JVal (PInt throttle_pct)),
          (''brake'', JVal (PInt brake_pct)),
          (''x'', JVal x),
          (''y'', JVal y)]))))))))))))))))))"

text \<open>The body of the \<open>try\<close>: build the record, serialise it, send it. The result is the datagram sent.\<close>

definition publish :: "host \<Rightarrow> exn + string" where
  "publish h =
     exn_bind (build_payload h) (\<lambda>pl.
     exn_bind (dumps h pl) (\<lambda>d.
     case sendto h d (UDP_HOST, UDP_PORT) of Some e \<Rightarrow> Inl e | None \<Rightarrow> Inr d))"

text \<open>
  The body of the \<open>except Exception as err\<close> branch: \<open>if _label:\<close> holds for a label
  other than \<open>None\<close> and 0. An exception raised while the text is formatted or by
  \<open>ac.setText\<close> is not caught by anything.
\<close>

definition on_error :: "host \<Rightarrow> exn \<Rightarrow> state \<Rightarrow> exn option \<times> state" where
  "on_error h err s =
     (case label s of
        None \<Rightarrow> (None, s)
      | Some l \<Rightarrow>
          if l = 0 then (None, s)
          else (case err_text h err of
                  Inl e \<Rightarrow> (Some e, s)
                | Inr t \<Rightarrow>
                    (let txt = ''Telemetry error: '' @ t
                     in case setText h l txt of
                          None \<Rightarrow> (None, s\<lparr>shown := shown s @ [(l, txt)]\<rparr>)
                        | Some e \<Rightarrow> (Some e, s))))"

text \<open>
  \<open>acUpdate\<close>, with the reading of \<open>time.time()\<close> as the argument \<open>now\<close>. The first
  component of the result is the exception that leaves the handler, if any: one that
  \<open>except Exception\<close> does not catch, or one raised inside the \<open>except\<close> branch.
\<close>

definition acUpdate :: "host \<Rightarrow> pyfloat \<Rightarrow> state \<Rightarrow> exn option \<times> state" where
  "acUpdate h now s =
     (if float_lt (float_sub now (last_send s)) SEND_INTERVAL then (None, s)
      else (let s1 = s\<lparr>last_send := now\<rparr>
            in case publish h of
                 Inr d \<Rightarrow> (None, s1\<lparr>sent := sent s1 @ [(d, UDP_HOST, UDP_PORT)]\<rparr>)
               | Inl err \<Rightarrow> (if is_exception err then on_error h err s1 else (Some err, s1))))"

text \<open>A run of the plugin: the host calls the handler tick after tick, whatever the previous call did.\<close>

fun run :: "(host \<times> pyfloat) list \<Rightarrow> state \<Rightarrow> state" where
  "run [] s = s"
| "run ((h, now) # ticks) s = run ticks (snd (acUpdate h now s))"

text \<open>The clock readings of the ticks of a run that handed a datagram to the socket.\<close>

fun send_times :: "(host \<times> pyfloat) list \<Rightarrow> state \<Rightarrow> pyfloat list" where
  "send_times [] s = []"
| "send_times ((h, now) # ticks) s =
     (let s' = snd (acUpdate h now s)
      in (if length (sent s) < length (sent s') then [now] else []) @ send_times ticks s')"

subsection \<open>Clock readings and the state of the timer\<close>

text \<open>A reading of \<open>time.time()\<close> is a finite double.\<close>

definition finite_double :: "pyfloat \<Rightarrow> bool" where
  "finite_double f = (case f of Fin t \<Rightarrow> is_double t | _ \<Rightarrow> False)"

text \<open>The time between the stored timestamp and a reading, in seconds, as an exact number.\<close>

definition elapsed :: "pyfloat \<Rightarrow> state \<Rightarrow> rat" where
  "elapsed now s = fval now - fval (last_send s)"

text \<open>
  The timestamp is the initial \<open>0.0\<close> or a double of at least 1/16. This holds when the
  module is loaded and is kept by every tick, so it holds throughout every run.
\<close>

definition timer_ok :: "state \<Rightarrow> bool" where
  "timer_ok s = (case last_send s of Fin l \<Rightarrow> is_double l \<and> (l = 0 \<or> 1 / 16 \<le> l) | _ \<Rightarrow> False)"

subsection \<open>Concrete hosts\<close>

text \<open>The simulator state of the end-to-end scenario, with an encoder and a socket that work.\<close>

definition scenario_state :: "cs \<Rightarrow> pyval" where
  "scenario_state c = (case c of
       SpeedKMH \<Rightarrow> PFloat (float_lit (2107 / 10))
     | Gas \<Rightarrow> PFloat (float_lit (8 / 10))
     | Brake \<Rightarrow> PFloat (float_lit 0)
     | LapCount \<Rightarrow> PInt 3
     | LastLap \<Rightarrow> PFloat (float_lit (91123 / 1000))
     | WorldPosition \<Rightarrow> PSeq [PFloat (float_lit 10), PFloat (float_lit 0), PFloat (float_lit 20)])"

definition scenario_host :: host where
  "scenario_host = \<lparr>
     getTrackName = Inr ''Monza'',
     getDriverName = Inr ''Ayrton'',
     getCarName = Inr ''F1_2020'',
     getCarState = (\<lambda>c. Inr (scenario_state c)),
     dumps = (\<lambda>pl. Inr (concat (map fst pl))),
     sendto = (\<lambda>d a. None),
     setText = (\<lambda>l t. None),
     err_text = (\<lambda>e. Inr ''error'')\<rparr>"

text \<open>The record the specification expects for that scenario.\<close>

definition scenario_record :: payload where
  "scenario_record =
     [(''track'', JStr ''monza''),
      (''driver'', JStr ''Ayrton''),
      (''car'', JStr ''F1_2020''),
      (''lap'', JVal (PInt 3)),
      (''lastLap'', JStr ''1:31.123''),
      (''delta'', JStr []),
      (''speed'', JVal (PInt 210)),
      (''throttle'', JVal (PInt 80)),
      (''brake'', JVal (PInt 0)),
      (''x'', JVal (PFloat (Fin 10))),
      (''y'', JVal (PFloat (Fin 20)))]"

text \<open>The scenario with another car state.\<close>

definition scenario_with :: "(cs \<Rightarrow> exn + pyval) \<Rightarrow> host" where
  "scenario_with f = scenario_host\<lparr>getCarState := f\<rparr>"

text \<open>The scenario with a speed read that raises, every other read as before.\<close>

definition speed_fails :: "cs \<Rightarrow> exn + pyval" where
  "speed_fails c = (if c = SpeedKMH then Inl (HostError ''speed'') else Inr (scenario_state c))"

text \<open>A host on which the read of \<open>c\<close> returns \<open>v\<close>, all else as on \<open>h\<close>.\<close>

definition with_read :: "host \<Rightarrow> cs \<Rightarrow> pyval \<Rightarrow> host" where
  "with_read h c v = h\<lparr>getCarState := (\<lambda>c'. if c' = c then Inr v else getCarState h c')\<rparr>"

text \<open>A host on which every read, the encoder and the socket raise.\<close>

definition failing_host :: host where
  "failing_host = \<lparr>
     getTrackName = Inl (HostError ''track''),
     getDriverName = Inl (HostError ''driver''),
     getCarName = Inl (HostError ''car''),
     getCarState = (\<lambda>c. Inl (HostError ''state'')),
     dumps = (\<lambda>pl. Inl (HostError ''json'')),
     sendto = (\<lambda>d a. Some (HostError ''socket'')),
     setText = (\<lambda>l t. None),
     err_text = (\<lambda>e. Inr ''error'')\<rparr>"

text \<open>The failing host with a label widget that raises as well.\<close>

definition label_fails_host :: host where
  "label_fails_host = failing_host\<lparr>setText := (\<lambda>l t. Some (HostError ''label''))\<rparr>"

text \<open>The failing host with exceptions whose text cannot be formatted.\<close>

definition unprintable_host :: host where
  "unprintable_host = failing_host\<lparr>err_text := (\<lambda>e. Inl (HostError ''str''))\<rparr>"

text \<open>The scenario interrupted from the keyboard during the reads.\<close>

definition interrupted_host :: host where
  "interrupted_host = scenario_host\<lparr>getCarState := (\<lambda>c. Inl (BaseError ''KeyboardInterrupt''))\<rparr>"

text \<open>The scenario interrupted from the keyboard inside the car-name accessor.\<close>

definition car_name_interrupted_host :: host where
  "car_name_interrupted_host = scenario_host\<lparr>getCarName := Inl (BaseError ''KeyboardInterrupt'')\<rparr>"

section \<open>Rounding to a double\<close>

subsection \<open>Powers of two and the binary exponent\<close>

lemma two_powi_pos: "0 < (2::rat) powi k"
  by simp

lemma two_powi_less: "(2::rat) powi a < 2 powi b \<longleftrightarrow> a < b"
proof
  assume "(2::rat) powi a < 2 powi b"
  show "a < b"
  proof (rule ccontr)
    assume "\<not> a < b"
    then have "(2::rat) powi b \<le> 2 powi a" by (intro power_int_increasing) auto
    with \<open>(2::rat) powi a < 2 powi b\<close> show False by simp
  qed
next
  assume "a < b"
  then show "(2::rat) powi a < 2 powi b" by (intro power_int_strict_increasing) auto
qed

lemma two_powi_le: "(2::rat) powi a \<le> 2 powi b \<longleftrightarrow> a \<le> b"
  using two_powi_less[of b a] by (auto simp: not_less[symmetric])

lemma two_powi_add: "(2::rat) powi (a + b) = 2 powi a * 2 powi b"
  by (simp add: power_int_add)

lemma two_powi_diff: "(2::rat) powi (a - b) = 2 powi a / 2 powi b"
  by (simp add: power_int_diff)

lemma two_powi_nat: "0 \<le> k \<Longrightarrow> (2::rat) powi k = of_int (2 ^ nat k)"
  by (simp add: power_int_nonneg_exp)

lemma bitlen_powi_bounds:
  assumes "0 < a"
  shows "(2::rat) powi (bitlen a - 1) \<le> of_int a" and "of_int a < (2::rat) powi bitlen a"
proof -
  have ge1: "1 \<le> bitlen a" using assms bitlen_eq_zero_iff[of a] bitlen_nonneg[of a] by linarith
  from bitlen_bounds[OF assms] have lo: "2 ^ nat (bitlen a - 1) \<le> a" and hi: "a < 2 ^ nat (bitlen a)"
    by auto
  have "(2::rat) powi (bitlen a - 1) = of_int (2 ^ nat (bitlen a - 1))"
    using ge1 by (intro two_powi_nat) simp
  also have "\<dots> \<le> of_int a" using lo by (simp only: of_int_le_iff)
  finally show "(2::rat) powi (bitlen a - 1) \<le> of_int a" .
  have "(of_int a :: rat) < of_int (2 ^ nat (bitlen a))" using hi by (simp only: of_int_less_iff)
  also have "\<dots> = 2 powi bitlen a" using ge1 by (subst two_powi_nat) simp_all
  finally show "of_int a < (2::rat) powi bitlen a" .
qed

lemma ilog2_bounds:
  assumes "q \<noteq> 0"
  shows "2 powi ilog2 q \<le> \<bar>q\<bar>" and "\<bar>q\<bar> < 2 powi (ilog2 q + 1)"
proof -
  obtain a b where ab: "quotient_of \<bar>q\<bar> = (a, b)" by (cases "quotient_of \<bar>q\<bar>")
  have bpos: "0 < b" using quotient_of_denom_pos[OF ab] .
  have qab: "\<bar>q\<bar> = of_int a / of_int b" using quotient_of_div[OF ab] .
  have "0 < \<bar>q\<bar>" using assms by simp
  then have apos: "0 < a" using bpos qab by (simp add: zero_less_divide_iff)
  let ?d = "bitlen a - bitlen b"
  note A = bitlen_powi_bounds[OF apos] and B = bitlen_powi_bounds[OF bpos]
  have Bpos: "(0::rat) < of_int b" using bpos by simp
  have up: "\<bar>q\<bar> < 2 powi (?d + 1)"
  proof -
    have "of_int a / of_int b < (2::rat) powi bitlen a / 2 powi (bitlen b - 1)"
      using A(2) B(1) Bpos apos by (intro frac_less) auto
    also have "\<dots> = 2 powi (?d + 1)"
      by (simp add: two_powi_diff[symmetric] algebra_simps)
    finally show ?thesis using qab by simp
  qed
  have lo: "2 powi (?d - 1) \<le> \<bar>q\<bar>"
  proof -
    have "(2::rat) powi (?d - 1) = 2 powi (bitlen a - 1) / 2 powi bitlen b"
      by (simp add: two_powi_diff[symmetric] algebra_simps)
    also have "\<dots> \<le> of_int a / of_int b"
      using A(1) B(2) Bpos apos by (intro frac_le) auto
    finally show ?thesis using qab by simp
  qed
  show "2 powi ilog2 q \<le> \<bar>q\<bar>"
    using lo by (simp add: ilog2_def ab Let_def)
  show "\<bar>q\<bar> < 2 powi (ilog2 q + 1)"
    using up by (auto simp add: ilog2_def ab Let_def not_le)
qed

lemma ilog2_unique:
  assumes "2 powi e \<le> \<bar>q\<bar>" and "\<bar>q\<bar> < 2 powi (e + 1)"
  shows "ilog2 q = e"
proof -
  have "0 < \<bar>q\<bar>" using two_powi_pos[of e] assms(1) by linarith
  then have q0: "q \<noteq> 0" by simp
  from ilog2_bounds[OF q0] assms
  have "(2::rat) powi e < 2 powi (ilog2 q + 1)" and "(2::rat) powi ilog2 q < 2 powi (e + 1)"
    by linarith+
  then show ?thesis by (simp add: two_powi_less)
qed

subsection \<open>Rounding to an integer, ties to even\<close>

lemma round_half_even_of_int [simp]: "round_half_even (of_int n) = n"
  by (simp add: round_half_even_def)

lemma round_half_even_bounds:
  "of_int (round_half_even q) \<le> q + 1 / 2" "q - 1 / 2 \<le> of_int (round_half_even q)"
  by (auto simp: round_half_even_def Let_def not_less) linarith+

lemma round_half_even_cases:
  "round_half_even q = \<lfloor>q\<rfloor> \<or> round_half_even q = \<lfloor>q\<rfloor> + 1"
  by (auto simp: round_half_even_def Let_def)

lemma round_half_even_mono:
  assumes "a \<le> b"
  shows "round_half_even a \<le> round_half_even b"
proof (cases "\<lfloor>a\<rfloor> = \<lfloor>b\<rfloor>")
  case True
  then show ?thesis using assms by (auto simp: round_half_even_def Let_def)
next
  case False
  then have "\<lfloor>a\<rfloor> + 1 \<le> \<lfloor>b\<rfloor>" using floor_mono[OF assms] by linarith
  then show ?thesis using round_half_even_cases[of a] round_half_even_cases[of b] by linarith
qed

subsection \<open>Values that rounding leaves alone\<close>

lemma ulp_pos [simp]: "0 < ulp q"
  by (simp add: ulp_def)

lemma round_half_even_nearest:
  assumes "\<bar>q - of_int m\<bar> < 1 / 2"
  shows "round_half_even q = m"
proof -
  from assms have lo: "of_int m - 1 / 2 < q" and hi: "q < of_int m + 1 / 2"
    by linarith+
  have "of_int (m - 1) \<le> q" using lo by simp
  then have 1: "m - 1 \<le> \<lfloor>q\<rfloor>" by (simp only: le_floor_iff)
  have "q < of_int (m + 1)" using hi by simp
  then have 2: "\<lfloor>q\<rfloor> < m + 1" by (simp only: floor_less_iff)
  from 1 2 consider "\<lfloor>q\<rfloor> = m" | "\<lfloor>q\<rfloor> = m - 1" by linarith
  then show ?thesis
  proof cases
    case 1
    then show ?thesis using hi by (simp add: round_half_even_def Let_def)
  next
    case 2
    then show ?thesis using lo by (simp add: round_half_even_def Let_def)
  qed
qed

lemma rnd_unfold:
  assumes "q \<noteq> 0" "v = of_int (round_half_even (q / ulp q)) * ulp q" "\<bar>v\<bar> < 2 ^ 1024" "v \<noteq> 0"
  shows "rnd q = Fin v"
  using assms by (simp add: rnd_def nearest_def Let_def not_le)

text \<open>Evaluating rnd at a value whose binade is known.\<close>

lemma rnd_eval:
  assumes lo: "2 powi e \<le> \<bar>q\<bar>" and hi: "\<bar>q\<bar> < 2 powi (e + 1)" and e: "e \<le> 1022"
    and near: "\<bar>q / 2 powi (max e (- 1022) - 52) - of_int m\<bar> < 1 / 2"
    and m0: "m \<noteq> 0"
  shows "rnd q = Fin (of_int m * 2 powi (max e (- 1022) - 52))"
proof -
  define j where "j = max e (- 1022) - 52"
  have "0 < \<bar>q\<bar>" using two_powi_pos[of e] lo by linarith
  then have q0: "q \<noteq> 0" by simp
  have u: "ulp q = 2 powi j"
    by (simp add: ulp_def j_def ilog2_unique[OF lo hi])
  have m: "round_half_even (q / 2 powi j) = m"
    using near unfolding j_def by (rule round_half_even_nearest)
  have "\<bar>q\<bar> / 2 powi j < 2 powi (e + 1) / 2 powi j"
    using hi by (intro divide_strict_right_mono) (simp_all add: two_powi_pos)
  also have "\<dots> = 2 powi (e + 1 - j)" by (simp add: two_powi_diff)
  also have "\<dots> \<le> 2 powi 53" by (subst two_powi_le) (simp add: j_def)
  finally have "\<bar>q / 2 powi j\<bar> < 2 ^ 53" by (simp add: abs_divide)
  with near have "\<bar>of_int m :: rat\<bar> < 2 ^ 53 + 1 / 2" unfolding j_def by linarith
  then have "(of_int \<bar>m\<bar> :: rat) < of_int (2 ^ 53 + 1)" by simp
  then have "\<bar>m\<bar> < 2 ^ 53 + 1" by (simp only: of_int_less_iff)
  then have "\<bar>m\<bar> \<le> 2 ^ 53" by simp
  then have "(of_int \<bar>m\<bar> :: rat) \<le> of_int (2 ^ 53)" by (simp only: of_int_le_iff)
  then have "\<bar>of_int m * 2 powi j :: rat\<bar> \<le> 2 powi 53 * 2 powi j"
    by (simp add: abs_mult two_powi_pos mult_right_mono)
  also have "\<dots> = 2 powi (53 + j)" by (simp add: two_powi_add)
  also have "\<dots> \<le> 2 powi 1023" using e by (subst two_powi_le) (simp add: j_def)
  also have "\<dots> < 2 ^ 1024" by simp
  finally have small: "\<bar>of_int m * 2 powi j :: rat\<bar> < 2 ^ 1024" .
  have "rnd q = Fin (of_int m * 2 powi j)"
    using q0 _ small by (rule rnd_unfold) (simp_all only: u m m0 not_False_eq_True mult_eq_0_iff of_int_eq_0_iff power_int_eq_0_iff, simp_all)
  then show ?thesis by (simp only: j_def)
qed

text \<open>Dyadic numbers with a mantissa of at most 53 bits and an exponent in range are doubles.\<close>

lemma rnd_dyadic:
  assumes "n \<noteq> 0" "\<bar>n\<bar> < 2 ^ 53" "- 1074 \<le> j" "\<bar>of_int n * 2 powi j\<bar> < (2::rat) ^ 1024"
  shows "rnd (of_int n * 2 powi j) = Fin (of_int n * 2 powi j)"
proof -
  define q :: rat where "q = of_int n * 2 powi j"
  define j' where "j' = max (ilog2 q) (- 1022) - 52"
  define k where "k = nat (j - j')"
  have q0: "q \<noteq> 0" using assms(1) by (simp add: q_def)
  have u: "ulp q = 2 powi j'" by (simp add: ulp_def j'_def)
  have jj: "j' \<le> j"
  proof (cases "ilog2 q \<le> - 1022")
    case True
    then show ?thesis using assms(3) by (simp add: j'_def)
  next
    case False
    have "2 powi ilog2 q \<le> \<bar>q\<bar>" using ilog2_bounds(1)[OF q0] .
    also have "\<bar>q\<bar> = of_int \<bar>n\<bar> * 2 powi j" by (simp add: q_def abs_mult)
    also have "\<dots> < of_int (2 ^ 53) * 2 powi j"
      using assms(2) by (intro mult_strict_right_mono) (simp_all only: of_int_less_iff two_powi_pos)
    also have "\<dots> = 2 powi (53 + j)" by (simp add: two_powi_add)
    finally have "ilog2 q < 53 + j" by (simp add: two_powi_less)
    then show ?thesis using False by (simp add: j'_def)
  qed
  have "(2::rat) powi j = 2 powi (j' + int k)" using jj by (simp add: k_def)
  also have "\<dots> = 2 powi j' * 2 ^ k" by (simp add: two_powi_add)
  finally have pj: "(2::rat) powi j = 2 powi j' * 2 ^ k" .
  have qe: "q = of_int (n * 2 ^ k) * 2 powi j'" by (simp add: q_def pj)
  have "q / 2 powi j' = of_int (n * 2 ^ k)" by (subst qe) simp
  then have r: "round_half_even (q / 2 powi j') = n * 2 ^ k"
    by (simp only: round_half_even_of_int)
  have v: "q = of_int (round_half_even (q / ulp q)) * ulp q"
    unfolding u r using qe .
  have "rnd q = Fin q"
    using q0 v by (rule rnd_unfold) (use assms(4) q0 in \<open>simp_all add: q_def\<close>)
  then show ?thesis by (simp only: q_def)
qed

lemma rnd_int:
  assumes "\<bar>n\<bar> < 2 ^ 53"
  shows "rnd (of_int n) = Fin (of_int n)"
proof (cases "n = 0")
  case True
  then show ?thesis by (simp add: rnd_def)
next
  case False
  have "\<bar>of_int n :: rat\<bar> < of_int (2 ^ 53)" using assms by (simp only: of_int_abs[symmetric] of_int_less_iff)
  also have "\<dots> < 2 ^ 1024" by simp
  finally show ?thesis using rnd_dyadic[of n 0] False assms by simp
qed

lemma rnd_numeral [simp]: "numeral k < (2::int) ^ 53 \<Longrightarrow> rnd (numeral k) = Fin (numeral k)"
  using rnd_int[of "numeral k"] by simp

lemma rnd_0 [simp]: "rnd 0 = Fin 0"
  by (simp add: rnd_def)

lemma rnd_1 [simp]: "rnd 1 = Fin 1"
  using rnd_int[of 1] by simp

lemma floor_rat_numeral_div [simp]: "\<lfloor>(numeral a :: rat) / numeral b\<rfloor> = numeral a div numeral b"
  by (metis floor_divide_of_int_eq of_int_numeral)

subsection \<open>Signs and bounds of rounded values\<close>

lemma round_half_even_0 [simp]: "round_half_even 0 = 0"
  by (simp add: round_half_even_def)

lemma nearest_0 [simp]: "nearest 0 = 0"
  by (simp add: nearest_def)

lemma nearest_nonpos: "q \<le> 0 \<Longrightarrow> nearest q \<le> 0"
proof -
  assume "q \<le> 0"
  then have "q / ulp q \<le> 0" by (simp add: divide_le_0_iff less_imp_le)
  then have "round_half_even (q / ulp q) \<le> round_half_even 0" by (rule round_half_even_mono)
  then have "round_half_even (q / ulp q) \<le> 0" by simp
  then have "(of_int (round_half_even (q / ulp q)) :: rat) \<le> 0" by simp
  then show ?thesis unfolding nearest_def by (simp add: mult_le_0_iff less_imp_le)
qed

lemma rnd_nonpos:
  assumes "q \<le> 0" "0 < c"
  shows "float_lt (rnd q) (Fin c)"
  using nearest_nonpos[OF assms(1)] assms
  by (auto simp: rnd_def Let_def)

text \<open>A positive value in a normal binade is rounded to at least the lower end of the binade.\<close>

lemma nearest_ge_pow:
  assumes "2 powi e \<le> q" "- 1022 \<le> e"
  shows "2 powi e \<le> nearest q"
proof -
  have qpos: "0 < q" using two_powi_pos[of e] assms(1) by linarith
  then have q0: "q \<noteq> 0" by simp
  define i where "i = ilog2 q"
  have "2 powi e \<le> \<bar>q\<bar>" using assms(1) qpos by simp
  also have "\<dots> < 2 powi (i + 1)" unfolding i_def using ilog2_bounds(2)[OF q0] .
  finally have ei: "e \<le> i" by (simp add: two_powi_less)
  have u: "ulp q = 2 powi (i - 52)" using ei assms(2) by (simp add: ulp_def i_def)
  have "2 powi i \<le> q" using ilog2_bounds(1)[OF q0] qpos by (simp add: i_def)
  then have "2 powi i / 2 powi (i - 52) \<le> q / 2 powi (i - 52)"
    by (intro divide_right_mono) (simp_all add: less_imp_le)
  then have "of_int (2 ^ 52) \<le> q / ulp q" by (simp add: u two_powi_diff)
  then have "round_half_even (of_int (2 ^ 52)) \<le> round_half_even (q / ulp q)"
    by (rule round_half_even_mono)
  then have "2 ^ 52 \<le> round_half_even (q / ulp q)" by (simp only: round_half_even_of_int)
  then have "(of_int (2 ^ 52) :: rat) \<le> of_int (round_half_even (q / ulp q))"
    by (simp only: of_int_le_iff)
  then have "of_int (2 ^ 52) * 2 powi (i - 52) \<le> nearest q"
    unfolding nearest_def u by (intro mult_right_mono) (simp_all add: less_imp_le)
  moreover have "(of_int (2 ^ 52) :: rat) * 2 powi (i - 52) = 2 powi i"
    by (simp add: two_powi_diff)
  moreover have "(2::rat) powi e \<le> 2 powi i" using ei by (simp add: two_powi_le)
  ultimately show ?thesis by linarith
qed

lemma SEND_INTERVAL_value: "SEND_INTERVAL = Fin (3602879701896397 / 36028797018963968)"
  unfolding SEND_INTERVAL_def float_lit_def
  using rnd_eval[of "- 4" "1 / 10" 7205759403792794] by simp

text \<open>An exact result of at least a tenth of a second is never rounded below the interval.\<close>

lemma rnd_ge_interval:
  assumes "1 / 10 \<le> q"
  shows "\<not> float_lt (rnd q) SEND_INTERVAL"
proof -
  have qpos: "0 < q" using assms by linarith
  then have q0: "q \<noteq> 0" by simp
  have ge: "3602879701896397 / 36028797018963968 \<le> nearest q"
  proof (cases "1 / 8 \<le> q")
    case True
    then have "2 powi (- 3) \<le> q" by simp
    then have "2 powi (- 3) \<le> nearest q" by (rule nearest_ge_pow) simp
    then show ?thesis by simp
  next
    case False
    have "2 powi (- 4) \<le> \<bar>q\<bar>" "\<bar>q\<bar> < 2 powi (- 4 + 1)" using assms False by simp_all
    then have "ilog2 q = - 4" by (rule ilog2_unique)
    then have u: "ulp q = 2 powi (- 56)" by (simp add: ulp_def)
    have "(1 / 10) / 2 powi (- 56) \<le> q / (2 powi (- 56) :: rat)"
      using assms by (intro divide_right_mono) simp_all
    then have "round_half_even ((1 / 10) / 2 powi (- 56)) \<le> round_half_even (q / ulp q)"
      unfolding u by (rule round_half_even_mono)
    moreover have "round_half_even ((1 / 10) / 2 powi (- 56)) = 7205759403792794"
      by (rule round_half_even_nearest) simp
    ultimately have "(of_int 7205759403792794 :: rat) \<le> of_int (round_half_even (q / ulp q))"
      by (simp only: of_int_le_iff)
    then have "of_int 7205759403792794 * 2 powi (- 56) \<le> nearest q"
      unfolding nearest_def u by (intro mult_right_mono) simp_all
    then show ?thesis by simp
  qed
  then have "0 < nearest q" by linarith
  with ge show ?thesis
    using qpos by (auto simp: rnd_def Let_def SEND_INTERVAL_value)
qed

text \<open>What being a double says about a number.\<close>

lemma is_double_0 [simp]: "is_double 0"
  by (simp add: is_double_def)

lemma is_double_nearest: "is_double q \<Longrightarrow> nearest q = q"
  by (cases "q = 0") (auto simp: is_double_def rnd_def Let_def split: if_splits)

lemma is_double_grid:
  assumes "is_double q" "2 powi e \<le> \<bar>q\<bar>" "- 1022 \<le> e"
  shows "\<exists>n. q = of_int n * 2 powi (e - 52)"
proof -
  have "0 < \<bar>q\<bar>" using two_powi_pos[of e] assms(2) by linarith
  then have q0: "q \<noteq> 0" by simp
  define i where "i = ilog2 q"
  have "2 powi e \<le> \<bar>q\<bar>" using assms(2) .
  also have "\<dots> < 2 powi (i + 1)" unfolding i_def using ilog2_bounds(2)[OF q0] .
  finally have ei: "e \<le> i" by (simp add: two_powi_less)
  have u: "ulp q = 2 powi (i - 52)" using ei assms(3) by (simp add: ulp_def i_def)
  define k where "k = nat (i - e)"
  have "(2::rat) powi (i - 52) = 2 powi (e - 52 + int k)" using ei by (simp add: k_def)
  also have "\<dots> = 2 powi (e - 52) * 2 ^ k" by (simp add: two_powi_add del: power_int_add_numeral power_int_add_numeral2)
  finally have p: "(2::rat) powi (i - 52) = 2 powi (e - 52) * 2 ^ k" .
  define m where "m = round_half_even (q / ulp q)"
  have "q = of_int m * ulp q"
    using is_double_nearest[OF assms(1)] by (simp add: nearest_def m_def)
  then have "q = of_int m * (2 powi (e - 52) * 2 ^ k)" by (simp only: u p)
  then have "q = of_int (m * 2 ^ k) * 2 powi (e - 52)" by (simp add: mult_ac)
  then show ?thesis ..
qed

section \<open>The rate limit\<close>

lemma float_sub_Fin [simp]: "float_sub (Fin a) (Fin b) = rnd (a - b)"
  by simp

lemma is_double_rnd: "is_double q \<Longrightarrow> rnd q = Fin q"
  by (simp add: is_double_def)

lemma guard_iff:
  assumes t: "is_double t" and l: "is_double l" and inv: "l = 0 \<or> 1 / 16 \<le> l"
  shows "float_lt (float_sub (Fin t) (Fin l)) SEND_INTERVAL \<longleftrightarrow> t - l < 1 / 10"
proof (cases "t - l < 1 / 10")
  case False
  then have "1 / 10 \<le> t - l" by simp
  then have "\<not> float_lt (rnd (t - l)) SEND_INTERVAL" by (rule rnd_ge_interval)
  with False show ?thesis by simp
next
  case True
  have "float_lt (rnd (t - l)) SEND_INTERVAL"
  proof (cases "t - l \<le> 0")
    case True
    then show ?thesis unfolding SEND_INTERVAL_value by (rule rnd_nonpos) simp
  next
    case pos: False
    show ?thesis
    proof (cases "l = 0")
      case True
      then show ?thesis
        using \<open>t - l < 1 / 10\<close> is_double_rnd[OF t] by (simp add: SEND_INTERVAL_value)
    next
      case False
      then have lge: "1 / 16 \<le> l" using inv by simp
      then have tge: "1 / 16 \<le> t" using pos by simp
      have "2 powi (- 4) \<le> \<bar>t\<bar>" using tge by simp
      from is_double_grid[OF t this] obtain n where n: "t = of_int n * 2 powi (- 56)" by auto
      have "2 powi (- 4) \<le> \<bar>l\<bar>" using lge by simp
      from is_double_grid[OF l this] obtain k where k: "l = of_int k * 2 powi (- 56)" by auto
      have d: "t - l = of_int (n - k) * 2 powi (- 56)" by (simp add: n k algebra_simps)
      have "0 < (of_int (n - k) :: rat)" using pos unfolding d by (simp add: zero_less_mult_iff)
      then have nk0: "0 < n - k" by (simp only: of_int_0_less_iff)
      have "(of_int (n - k) :: rat) < of_int (2 ^ 53)" using True unfolding d by simp
      then have nk1: "n - k < 2 ^ 53" by (simp only: of_int_less_iff)
      have "rnd (of_int (n - k) * 2 powi (- 56)) = Fin (of_int (n - k) * 2 powi (- 56))"
      proof (rule rnd_dyadic)
        show "n - k \<noteq> 0" using nk0 by simp
        show "\<bar>n - k\<bar> < 2 ^ 53" using nk0 nk1 by simp
        show "- 1074 \<le> (- 56 :: int)" by simp
        have "\<bar>of_int (n - k) * 2 powi (- 56) :: rat\<bar> < 1 / 10" using True pos unfolding d by simp
        then show "\<bar>of_int (n - k) * 2 powi (- 56) :: rat\<bar> < 2 ^ 1024" by simp
      qed
      then have "rnd (t - l) = Fin (t - l)" by (simp only: d)
      then show ?thesis using True by (simp add: SEND_INTERVAL_value)
    qed
  qed
  with True show ?thesis by simp
qed

lemma acUpdate_guard:
  assumes "timer_ok s" "finite_double now"
  shows "float_lt (float_sub now (last_send s)) SEND_INTERVAL \<longleftrightarrow> elapsed now s < 1 / 10"
  using assms guard_iff
  by (auto simp: timer_ok_def finite_double_def elapsed_def split: pyfloat.splits)

lemma acUpdate_skip:
  "float_lt (float_sub now (last_send s)) SEND_INTERVAL \<Longrightarrow> acUpdate h now s = (None, s)"
  by (simp add: acUpdate_def)

lemma acUpdate_attempt:
  assumes "\<not> float_lt (float_sub now (last_send s)) SEND_INTERVAL"
  shows "last_send (snd (acUpdate h now s)) = now"
    and "sent (snd (acUpdate h now s)) = sent s \<or> (\<exists>d. sent (snd (acUpdate h now s)) = sent s @ [d])"
  using assms
  by (auto simp: acUpdate_def on_error_def Let_def split: sum.splits option.splits)

lemma timer_ok_init: "timer_ok (init_state l)"
  by (simp add: timer_ok_def init_state_def)

lemma timer_ok_acUpdate:
  assumes "timer_ok s" "finite_double now"
  shows "timer_ok (snd (acUpdate h now s))"
proof (cases "elapsed now s < 1 / 10")
  case True
  then show ?thesis using assms acUpdate_guard[OF assms] by (simp add: acUpdate_skip)
next
  case False
  then have g: "\<not> float_lt (float_sub now (last_send s)) SEND_INTERVAL"
    using acUpdate_guard[OF assms] by simp
  have "last_send (snd (acUpdate h now s)) = now" using acUpdate_attempt(1)[OF g] .
  moreover have "1 / 16 \<le> fval now"
    using False assms by (auto simp: elapsed_def timer_ok_def split: pyfloat.splits)
  ultimately show ?thesis using assms(2)
    by (auto simp: timer_ok_def finite_double_def split: pyfloat.splits)
qed

lemma timer_ok_run:
  assumes "\<forall>tick \<in> set ticks. finite_double (snd tick)" "timer_ok s"
  shows "timer_ok (run ticks s)"
  using assms
proof (induction ticks arbitrary: s)
  case Nil
  then show ?case by simp
next
  case (Cons tick ticks)
  obtain h now where tick: "tick = (h, now)" by (cases tick)
  have "timer_ok (snd (acUpdate h now s))"
    using Cons.prems tick by (intro timer_ok_acUpdate) simp_all
  then show ?case using Cons.IH Cons.prems(1) by (simp add: tick)
qed

lemma acUpdate_skip_elapsed:
  assumes "timer_ok s" "finite_double now" "elapsed now s < 1 / 10"
  shows "acUpdate h now s = (None, s)"
  using assms acUpdate_guard acUpdate_skip by blast

lemma send_times_sorted:
  assumes "\<forall>tick \<in> set ticks. finite_double (snd tick)" "timer_ok s"
  shows "sorted_wrt (\<lambda>a b. 1 / 10 \<le> b - a) (fval (last_send s) # map fval (send_times ticks s))"
  using assms
proof (induction ticks arbitrary: s)
  case Nil
  then show ?case by simp
next
  case (Cons tick ticks)
  obtain h now where tick: "tick = (h, now)" by (cases tick)
  have fd: "finite_double now" using Cons.prems(1) tick by simp
  let ?s' = "snd (acUpdate h now s)"
  have ok': "timer_ok ?s'" using timer_ok_acUpdate[OF Cons.prems(2) fd] .
  have IH: "sorted_wrt (\<lambda>a b. 1 / 10 \<le> b - a) (fval (last_send ?s') # map fval (send_times ticks ?s'))"
    using Cons.IH[OF _ ok'] Cons.prems(1) by simp
  show ?case
  proof (cases "elapsed now s < 1 / 10")
    case True
    then have "acUpdate h now s = (None, s)" using acUpdate_skip_elapsed[OF Cons.prems(2) fd] by simp
    then show ?thesis using IH by (simp add: tick)
  next
    case False
    then have g: "\<not> float_lt (float_sub now (last_send s)) SEND_INTERVAL"
      using acUpdate_guard[OF Cons.prems(2) fd] by simp
    have l: "last_send ?s' = now" using acUpdate_attempt(1)[OF g] .
    have gap: "1 / 10 \<le> fval now - fval (last_send s)" using False by (simp add: elapsed_def)
    from IH have rest: "\<forall>b \<in> set (map fval (send_times ticks ?s')). 1 / 10 \<le> b - fval now"
      and srt: "sorted_wrt (\<lambda>a b. 1 / 10 \<le> b - a) (map fval (send_times ticks ?s'))"
      by (simp_all add: l)
    have far: "\<forall>b \<in> set (map fval (send_times ticks ?s')). 1 / 10 \<le> b - fval (last_send s)"
      using rest gap by fastforce
    show ?thesis using far rest srt gap by (simp add: tick Let_def)
  qed
qed

section \<open>The lap-time formatter on numbers\<close>

lemma two_powi_not_le0 [simp]: "\<not> (2::rat) powi j \<le> 0"
  using two_powi_pos[of j] by linarith

lemma two_powi_not_less0 [simp]: "\<not> (2::rat) powi j < 0"
  using two_powi_pos[of j] by linarith

lemma mult_two_powi_nonneg: "0 \<le> a * 2 powi j \<longleftrightarrow> 0 \<le> (a::rat)"
  by (auto simp: zero_le_mult_iff)

lemma is_double_mantissa:
  assumes d: "is_double s" and pos: "0 < s" and small: "s < 2 ^ 53"
  shows "\<exists>m j. s = of_int m * 2 powi j \<and> - 1074 \<le> j \<and> j \<le> 0 \<and> 0 < m \<and> m < 2 ^ 53"
proof -
  have s0: "s \<noteq> 0" using pos by simp
  define i where "i = ilog2 s"
  define j where "j = max i (- 1022) - 52"
  define m where "m = round_half_even (s / ulp s)"
  have lo: "2 powi i \<le> s" and hi: "s < 2 powi (i + 1)"
    using ilog2_bounds[OF s0] pos by (simp_all add: i_def)
  have "(2::rat) powi i < 2 powi 53" using lo small by simp
  then have "i < 53" by (simp only: two_powi_less)
  then have i52: "i \<le> 52" by simp
  have u: "ulp s = 2 powi j" by (simp add: ulp_def i_def j_def)
  have sm: "s = of_int m * 2 powi j"
    using is_double_nearest[OF d] by (simp add: nearest_def m_def u)
  have "0 < (of_int m :: rat) * 2 powi j" using pos sm by simp
  then have "0 < (of_int m :: rat)" by (simp add: zero_less_mult_iff)
  then have mpos: "0 < m" by (simp only: of_int_0_less_iff)
  have "of_int m * 2 powi j < (2::rat) powi (i + 1)" using hi sm by simp
  also have "\<dots> = 2 powi (i + 1 - j) * 2 powi j" by (simp add: two_powi_add[symmetric])
  finally have "(of_int m :: rat) < 2 powi (i + 1 - j)" by (simp add: two_powi_pos)
  also have "\<dots> \<le> 2 powi 53" by (subst two_powi_le) (simp add: j_def)
  finally have "(of_int m :: rat) < of_int (2 ^ 53)" by simp
  then have m53: "m < 2 ^ 53" by (simp only: of_int_less_iff)
  have "- 1074 \<le> j" "j \<le> 0" using i52 by (simp_all add: j_def)
  with sm mpos m53 show ?thesis by blast
qed

text \<open>Subtracting a whole number from a double below \<open>2 ^ 53\<close> is exact when the result is not negative.\<close>

lemma sub_int_exact:
  assumes d: "is_double s" and pos: "0 < s" and small: "s < 2 ^ 53"
    and c0: "0 \<le> c" and c: "of_int c \<le> s"
  shows "rnd (s - of_int c) = Fin (s - of_int c)"
proof -
  from is_double_mantissa[OF d pos small] obtain m j
    where sm: "s = of_int m * 2 powi j" and j: "- 1074 \<le> j" "j \<le> 0" and m: "0 < m" "m < 2 ^ 53"
    by blast
  define k where "k = nat (- j)"
  have "(2::rat) powi j * 2 ^ k = 2 powi (j + int k)" by (simp add: two_powi_add)
  also have "\<dots> = 1" using j by (simp add: k_def)
  finally have one: "(2::rat) powi j * 2 ^ k = 1" .
  have "(of_int c :: rat) = of_int c * (2 powi j * 2 ^ k)" by (simp only: one mult_1_right)
  also have "\<dots> = of_int (c * 2 ^ k) * 2 powi j" by (simp add: mult_ac)
  finally have ce: "(of_int c :: rat) = of_int (c * 2 ^ k) * 2 powi j" .
  define n where "n = m - c * 2 ^ k"
  have e: "s - of_int c = of_int n * 2 powi j"
    unfolding n_def by (subst ce, subst sm) (simp add: algebra_simps)
  have "0 \<le> s - of_int c" using c by simp
  then have "0 \<le> (of_int n :: rat)" unfolding e by (simp only: mult_two_powi_nonneg)
  then have n0: "0 \<le> n" by (simp only: of_int_0_le_iff)
  show ?thesis
  proof (cases "n = 0")
    case True
    then show ?thesis by (simp add: e)
  next
    case False
    have "n \<le> m" using c0 by (simp add: n_def)
    then have "(of_int n :: rat) * 2 powi j \<le> of_int m * 2 powi j"
      by (simp add: two_powi_pos)
    then have le: "\<bar>of_int n * 2 powi j :: rat\<bar> \<le> s" using n0 by (simp add: sm abs_mult)
    have "rnd (of_int n * 2 powi j) = Fin (of_int n * 2 powi j)"
    proof (rule rnd_dyadic)
      show "n \<noteq> 0" by (rule False)
      show "\<bar>n\<bar> < 2 ^ 53" using n0 \<open>n \<le> m\<close> m(2) by simp
      show "- 1074 \<le> j" by (rule j(1))
      have "s < 2 ^ 1024" using small by simp
      with le show "\<bar>of_int n * 2 powi j :: rat\<bar> < 2 ^ 1024" by linarith
    qed
    then show ?thesis by (simp only: e)
  qed
qed

lemma trunc_nonneg: "0 \<le> q \<Longrightarrow> trunc q = \<lfloor>q\<rfloor>"
  by (simp add: trunc_def)

lemma trunc_of_int [simp]: "trunc (of_int k) = k"
  by (simp add: trunc_def)

text \<open>Below \<open>2 ^ 53\<close> the floor division by 60 is the exact one.\<close>

lemma float_floor_div_exact:
  assumes d: "is_double s" and pos: "0 < s" and small: "s < 2 ^ 53"
  shows "float_floor_div (Fin s) 60 = Fin (of_int \<lfloor>s / 60\<rfloor>)"
proof -
  define k where "k = \<lfloor>s / 60\<rfloor>"
  have k0: "0 \<le> k" using pos by (simp add: k_def)
  have "of_int k \<le> s / 60" unfolding k_def by (rule of_int_floor_le)
  then have ks: "of_int (60 * k) \<le> s" by simp
  then have "(of_int (60 * k) :: rat) < of_int (2 ^ 53)" using small by simp
  then have k53: "60 * k < 2 ^ 53" by (simp only: of_int_less_iff)
  have md: "float_fmod (Fin s) 60 = Fin (s - of_int (60 * k))"
    using pos by (simp add: float_fmod_def trunc_nonneg k_def Let_def)
  have r1: "rnd (of_int (60 * k)) = Fin (of_int (60 * k))"
    using k0 k53 by (intro rnd_int) simp
  have r2: "rnd (of_int k) = Fin (of_int k)"
    using k0 k53 by (intro rnd_int) simp
  have sb: "float_sub (Fin s) (Fin (s - of_int (60 * k))) = Fin (of_int (60 * k))"
    using r1 by simp
  have dv: "float_div_pos (Fin (of_int (60 * k))) 60 = Fin (of_int k)"
    using r2 by (simp add: float_div_pos_def)
  have nl: "\<not> float_lt (Fin (s - of_int (60 * k))) (Fin 0)" using ks by simp
  show ?thesis
    unfolding float_floor_div_def md sb dv Let_def k_def[symmetric]
    using nl pos by (simp add: float_floor_def)
qed

lemma float_le_Fin [simp]: "float_le (Fin a) (Fin b) \<longleftrightarrow> a \<le> b"
  by (simp add: float_le_def not_less)

lemma format_lap_time_float:
  assumes d: "is_double s" and pos: "0 < s" and small: "s < 2 ^ 53"
  shows "format_lap_time (PFloat (Fin s)) = Inr (lap_time_text s)"
proof -
  define k where "k = \<lfloor>s / 60\<rfloor>"
  have k0: "0 \<le> k" using pos by (simp add: k_def)
  have "of_int k \<le> s / 60" unfolding k_def by (rule of_int_floor_le)
  then have ks: "of_int (k * 60) \<le> s" by simp
  then have "(of_int (k * 60) :: rat) < of_int (2 ^ 53)" using small by simp
  then have k53: "k * 60 < 2 ^ 53" by (simp only: of_int_less_iff)
  have "rnd (of_int (k * 60)) = Fin (of_int (k * 60))"
    using k0 k53 by (intro rnd_int) simp
  then have fi: "float_of_int (k * 60) = Inr (Fin (of_int (k * 60)))"
    unfolding float_of_int_def by (simp only: pyfloat.case)
  have "rnd (s - of_int (k * 60)) = Fin (s - of_int (k * 60))"
    using d pos small _ ks by (rule sub_int_exact) (use k0 in simp)
  then have sb: "rnd (s - of_int k * 60) = Fin (s - of_int k * 60)" by simp
  have fd: "float_floor_div (Fin s) 60 = Fin (of_int k)"
    unfolding k_def by (rule float_floor_div_exact[OF d pos small])
  have nn: "\<not> s - of_int (k * 60) < 0" using ks by simp
  show ?thesis
    using pos nn
    by (simp add: format_lap_time_def exn_bind_def fd fi sb lap_time_text_def k_def[symmetric]
        abs_if mult.commute)
qed

lemma format_lap_time_int:
  assumes "0 < n"
  shows "format_lap_time (PInt n) = Inr (lap_time_text (of_int n))"
proof -
  have r: "0 \<le> n mod 60" "n mod 60 < 60" by simp_all
  then have "\<bar>n mod 60\<bar> < 2 ^ 53" by simp
  then have "rnd (of_int (n mod 60)) = Fin (of_int (n mod 60))" by (rule rnd_int)
  then have fi: "float_of_int (n mod 60) = Inr (Fin (of_int (n mod 60)))"
    unfolding float_of_int_def by (simp only: pyfloat.case)
  have fl: "\<lfloor>(of_int n :: rat) / 60\<rfloor> = n div 60"
    using floor_divide_of_int_eq[of n 60, where ?'a = rat] by simp
  have sub: "n - n div 60 * 60 = n mod 60" by (simp add: minus_div_mult_eq_mod)
  have tx: "(of_int n :: rat) - 60 * of_int (n div 60) = of_int (n mod 60)"
    by (simp add: sub[symmetric])
  show ?thesis
    using assms r
    by (simp add: format_lap_time_def exn_bind_def sub fi lap_time_text_def fl tx abs_if)
qed

subsection \<open>Evaluating the formatter on literals\<close>

lemma dec_digits_numeral:
  "dec_digits (numeral k) = (if (numeral k :: int) < 10 then [digit_char (numeral k)]
     else dec_digits (numeral k div 10) @ [digit_char (numeral k mod 10)])"
  by (rule dec_digits.simps)

lemma dec_digits_0: "dec_digits 0 = ''0''"
  by (simp add: dec_digits.simps[of 0] digit_char_def char_of_def)

lemma dec_digits_1: "dec_digits 1 = ''1''"
  by (simp add: dec_digits.simps[of 1] digit_char_def char_of_def)

lemmas text_eval = lap_time_text_def fmt_d_def fixed3_def round_half_even_def Let_def
  dec_digits_numeral dec_digits_0 dec_digits_1 digit_char_def char_of_def eval_nat_numeral

lemma trunc_numeral [simp]: "trunc (numeral k) = numeral k"
  by (simp add: trunc_def)

lemma trunc_0 [simp]: "trunc 0 = 0"
  by (simp add: trunc_def)

lemma trunc_1 [simp]: "trunc 1 = 1"
  by (simp add: trunc_def)

lemma is_double_dyadic:
  assumes "n \<noteq> 0" "\<bar>n\<bar> < 2 ^ 53" "- 1074 \<le> j" "\<bar>of_int n * 2 powi j\<bar> < (2::rat) ^ 1024"
  shows "is_double (of_int n * 2 powi j)"
  unfolding is_double_def using assms by (rule rnd_dyadic)

text \<open>The literals of the examples.\<close>

lemma lit_65_25: "float_lit (261 / 4) = Fin (261 / 4)"
  unfolding float_lit_def using rnd_dyadic[of 261 "- 2"] by simp

lemma lit_125_4: "float_lit (627 / 5) = Fin (4412120259939533 / 35184372088832)"
  unfolding float_lit_def using rnd_eval[of 6 "1254 / 10" 8824240519879066] by simp

lemma lit_59_9995: "float_lit (119999 / 2000) = Fin (4222089466287751 / 70368744177664)"
  unfolding float_lit_def using rnd_eval[of 5 "599995 / 10000" 8444178932575502] by simp

lemma lit_59_9996: "float_lit (149999 / 2500) = Fin (4222096503162169 / 70368744177664)"
  unfolding float_lit_def using rnd_eval[of 5 "599996 / 10000" 8444193006324338] by simp

lemma lit_91_123: "float_lit (91123 / 1000) = Fin (6412211075701277 / 70368744177664)"
  unfolding float_lit_def using rnd_eval[of 6 "91123 / 1000" 6412211075701277] by simp

lemma lit_210_7: "float_lit (2107 / 10) = Fin (3706673599558451 / 17592186044416)"
  unfolding float_lit_def using rnd_eval[of 7 "2107 / 10" 7413347199116902] by simp

lemma lit_0_8: "float_lit (4 / 5) = Fin (3602879701896397 / 4503599627370496)"
  unfolding float_lit_def using rnd_eval[of "- 1" "8 / 10" 7205759403792794] by simp

lemma lit_half: "float_lit (1 / 2) = Fin (1 / 2)"
  unfolding float_lit_def using rnd_dyadic[of 1 "- 1"] by simp

lemma lit_numeral: "numeral k < (2::int) ^ 53 \<Longrightarrow> float_lit (numeral k) = Fin (numeral k)"
  by (simp add: float_lit_def)

lemma lit_0: "float_lit 0 = Fin 0"
  by (simp add: float_lit_def)

lemma lit_1: "float_lit 1 = Fin 1"
  by (simp add: float_lit_def)

lemma dbl_65_25: "is_double (261 / 4)"
  using is_double_dyadic[of 261 "- 2"] by simp

lemma dbl_125_4: "is_double (4412120259939533 / 35184372088832)"
  using is_double_dyadic[of 4412120259939533 "- 45"] by simp

lemma dbl_59_9995: "is_double (4222089466287751 / 70368744177664)"
  using is_double_dyadic[of 4222089466287751 "- 46"] by simp

lemma dbl_59_9996: "is_double (4222096503162169 / 70368744177664)"
  using is_double_dyadic[of 4222096503162169 "- 46"] by simp

lemma dbl_91_123: "is_double (6412211075701277 / 70368744177664)"
  using is_double_dyadic[of 6412211075701277 "- 46"] by simp

lemma fmt_65_25: "format_lap_time (PFloat (float_lit (6525 / 100))) = Inr ''1:05.250''"
  using format_lap_time_float[OF dbl_65_25] by (simp add: lit_65_25 text_eval)

lemma fmt_125_4: "format_lap_time (PFloat (float_lit (1254 / 10))) = Inr ''2:05.400''"
  using format_lap_time_float[OF dbl_125_4] by (simp add: lit_125_4 text_eval)

lemma fmt_59_9995: "format_lap_time (PFloat (float_lit (599995 / 10000))) = Inr ''0:59.999''"
  using format_lap_time_float[OF dbl_59_9995] by (simp add: lit_59_9995 text_eval)

lemma fmt_59_9996: "format_lap_time (PFloat (float_lit (599996 / 10000))) = Inr ''0:60.000''"
  using format_lap_time_float[OF dbl_59_9996] by (simp add: lit_59_9996 text_eval)

lemma fmt_91_123: "format_lap_time (PFloat (float_lit (91123 / 1000))) = Inr ''1:31.123''"
  using format_lap_time_float[OF dbl_91_123] by (simp add: lit_91_123 text_eval)

section \<open>The record\<close>

lemma float_of_int_numeral [simp]:
  "numeral k < (2::int) ^ 53 \<Longrightarrow> float_of_int (numeral k) = Inr (Fin (numeral k))"
  by (simp add: float_of_int_def)

lemma float_of_int_0 [simp]: "float_of_int 0 = Inr (Fin 0)"
  by (simp add: float_of_int_def)

lemma to_percent_None: "to_percent PNone = Inr 0"
  by (simp add: to_percent_def py_or_zero_def exn_bind_def)

lemma to_percent_half: "to_percent (PFloat (float_lit (1 / 2))) = Inr 50"
  by (simp add: lit_half to_percent_def py_or_zero_def exn_bind_def float_mul_def)

lemma to_percent_one: "to_percent (PFloat (float_lit 1)) = Inr 100"
  by (simp add: lit_1 to_percent_def py_or_zero_def exn_bind_def float_mul_def)

lemma to_percent_zero: "to_percent (PFloat (Fin 0)) = Inr 0"
  by (simp add: to_percent_def py_or_zero_def exn_bind_def)

lemma rnd_80: "rnd (90071992547409925 / 1125899906842624) = Fin 80"
  using rnd_eval[of 6 "90071992547409925 / 1125899906842624" 5629499534213120] by simp

lemma to_percent_0_8: "to_percent (PFloat (float_lit (4 / 5))) = Inr 80"
  by (simp add: lit_0_8 to_percent_def py_or_zero_def exn_bind_def float_mul_def rnd_80)

lemma int_210_7: "py_int (PFloat (float_lit (2107 / 10))) = Inr 210"
  by (simp add: lit_210_7 trunc_def)

lemma lower_Monza: "lower ''Monza'' = ''monza''"
  by (simp add: lower_def lower_char_def char_of_def)

text \<open>Letters beyond ASCII: \<open>U+00DC\<close> becomes \<open>U+00FC\<close>, the multiplication sign stays.\<close>

lemma lower_Muenchen: "lower (''M'' @ [CHR 0xDC] @ ''NCHEN'') = ''m'' @ [CHR 0xFC] @ ''nchen''"
  by (simp add: lower_def lower_char_def char_of_def)

lemma lower_times_sign: "lower [CHR 0xD7, CHR 0xDF, CHR 0xC0, CHR 0xDE] = [CHR 0xD7, CHR 0xDF, CHR 0xE0, CHR 0xFE]"
  by (simp add: lower_def lower_char_def char_of_def)

lemma scenario_payload:
  assumes "getTrackName h = Inr ''Monza''" "getDriverName h = Inr ''Ayrton''"
    "getCarName h = Inr ''F1_2020''"
    "getCarState h SpeedKMH = Inr (PFloat (float_lit (2107 / 10)))"
    "getCarState h Gas = Inr (PFloat (float_lit (8 / 10)))"
    "getCarState h Brake = Inr (PFloat (float_lit 0))"
    "getCarState h LapCount = Inr (PInt 3)"
    "getCarState h LastLap = Inr (PFloat (float_lit (91123 / 1000)))"
    "getCarState h WorldPosition =
       Inr (PSeq [PFloat (float_lit 10), PFloat (float_lit 0), PFloat (float_lit 20)])"
  shows "build_payload h = Inr scenario_record"
  unfolding build_payload_def
  by (simp add: assms get_track_name_def get_driver_name_def get_car_name_def
      fmt_91_123 int_210_7 to_percent_0_8 to_percent_zero lower_Monza
      exn_bind_def scenario_record_def lit_0 lit_numeral Let_def)

lemma scenario_host_payload: "build_payload scenario_host = Inr scenario_record"
  by (rule scenario_payload) (simp_all add: scenario_host_def scenario_state_def)

text \<open>The counterexample input of the lap-time formula.\<close>

lemma rnd_big_a: "rnd 1152921504606847980 = Fin 1152921504606848000"
  using rnd_eval[of 60 1152921504606847980 4503599627370500] by simp

lemma rnd_big_b: "rnd (57646075230342400 / 3) = Fin 19215358410114132"
  using rnd_eval[of 54 "57646075230342400 / 3" 4803839602528533] by simp

lemma rnd_big_c: "rnd 1152921504606847920 = Fin 1152921504606848000"
  using rnd_eval[of 60 1152921504606847920 4503599627370500] by simp

lemma big_floor_div:
  "float_floor_div (Fin 1152921504606848000) 60 = Fin 19215358410114132"
  by (simp add: float_floor_div_def float_fmod_def trunc_def float_div_pos_def float_floor_def
      Let_def rnd_big_a rnd_big_b)

lemma big_format:
  "format_lap_time (PFloat (Fin 1152921504606848000)) = Inr ''19215358410114132:00.000''"
  by (simp add: format_lap_time_def exn_bind_def big_floor_div trunc_def float_of_int_def
      rnd_big_c text_eval)

lemma big_text: "lap_time_text 1152921504606848000 = ''19215358410114133:20.000''"
  by (simp add: text_eval)

lemma big_double: "is_double 1152921504606848000"
  using is_double_dyadic[of 1125899906842625 10] by simp

lemma py_len_Inr: "py_len v = Inr n \<Longrightarrow> \<exists>vs. v = PSeq vs \<and> n = length vs"
  by (cases v) auto

text \<open>What a record that was built says about the reads and the conversions.\<close>

lemma build_payload_InrE:
  assumes "build_payload h = Inr pl"
  obtains speed throttle brake lap last_lap vs tn dn cn lap_count llt speed_int tp bp where
    "getCarState h SpeedKMH = Inr speed" "getCarState h Gas = Inr throttle"
    "getCarState h Brake = Inr brake" "getCarState h LapCount = Inr lap"
    "getCarState h LastLap = Inr last_lap" "getCarState h WorldPosition = Inr (PSeq vs)"
    "get_track_name h = Inr tn" "get_driver_name h = Inr dn" "get_car_name h = Inr cn"
    "(if lap \<noteq> PNone then py_int lap else Inr 0) = Inr lap_count"
    "format_lap_time last_lap = Inr llt"
    "(if speed \<noteq> PNone then py_int speed else Inr 0) = Inr speed_int"
    "to_percent throttle = Inr tp" "to_percent brake = Inr bp"
    "pl = [(''track'', JStr (lower tn)),
           (''driver'', JStr dn),
           (''car'', JStr cn),
           (''lap'', JVal (PInt lap_count)),
           (''lastLap'', JStr llt),
           (''delta'', JStr []),
           (''speed'', JVal (PInt speed_int)),
           (''throttle'', JVal (PInt tp)),
           (''brake'', JVal (PInt bp)),
           (''x'', JVal (if vs = [] then PInt 0 else vs ! 0)),
           (''y'', JVal (if length vs < 3 then PInt 0 else vs ! 2))]"
proof -
  from assms obtain speed where 1: "getCarState h SpeedKMH = Inr speed"
    by (cases "getCarState h SpeedKMH") (simp_all add: build_payload_def exn_bind_def)
  from assms obtain throttle where 2: "getCarState h Gas = Inr throttle"
    by (cases "getCarState h Gas") (simp_all add: build_payload_def exn_bind_def 1)
  from assms obtain brake where 3: "getCarState h Brake = Inr brake"
    by (cases "getCarState h Brake") (simp_all add: build_payload_def exn_bind_def 1 2)
  from assms obtain lap where 4: "getCarState h LapCount = Inr lap"
    by (cases "getCarState h LapCount") (simp_all add: build_payload_def exn_bind_def 1 2 3)
  from assms obtain last_lap where 5: "getCarState h LastLap = Inr last_lap"
    by (cases "getCarState h LastLap") (simp_all add: build_payload_def exn_bind_def 1 2 3 4)
  from assms obtain pos where 6: "getCarState h WorldPosition = Inr pos"
    by (cases "getCarState h WorldPosition") (simp_all add: build_payload_def exn_bind_def 1 2 3 4 5)
  note reads = 1 2 3 4 5 6
  from assms obtain n where "py_len pos = Inr n"
    by (cases "py_len pos") (simp_all add: build_payload_def exn_bind_def reads)
  then obtain vs where pos: "pos = PSeq vs" using py_len_Inr by blast
  have x: "(if vs \<noteq> [] then py_item (PSeq vs) 0 else Inr (PInt 0)) =
      Inr (if vs = [] then PInt 0 else vs ! 0)" by simp
  have y: "(if 2 < length vs then py_item (PSeq vs) 2 else Inr (PInt 0)) =
      Inr (if length vs < 3 then PInt 0 else vs ! 2)" by auto
  note pre = reads pos x y
  from assms obtain tn where n1: "get_track_name h = Inr tn"
    by (cases "get_track_name h")
      (simp_all add: build_payload_def exn_bind_def pre del: py_item.simps)
  from assms obtain dn where n2: "get_driver_name h = Inr dn"
    by (cases "get_driver_name h")
      (simp_all add: build_payload_def exn_bind_def pre n1 Let_def del: py_item.simps)
  from assms obtain cn where n3: "get_car_name h = Inr cn"
    by (cases "get_car_name h")
      (simp_all add: build_payload_def exn_bind_def pre n1 n2 Let_def del: py_item.simps)
  note pre = pre n1 n2 n3 Let_def
  from assms obtain lap_count where 7: "(if lap \<noteq> PNone then py_int lap else Inr 0) = Inr lap_count"
    by (cases "if lap \<noteq> PNone then py_int lap else Inr 0")
      (simp_all add: build_payload_def exn_bind_def pre del: py_item.simps)
  from assms obtain llt where 8: "format_lap_time last_lap = Inr llt"
    by (cases "format_lap_time last_lap")
      (simp_all add: build_payload_def exn_bind_def pre 7 del: py_item.simps)
  from assms obtain speed_int where 9: "(if speed \<noteq> PNone then py_int speed else Inr 0) = Inr speed_int"
    by (cases "if speed \<noteq> PNone then py_int speed else Inr 0")
      (simp_all add: build_payload_def exn_bind_def pre 7 8 del: py_item.simps)
  from assms obtain tp where 10: "to_percent throttle = Inr tp"
    by (cases "to_percent throttle")
      (simp_all add: build_payload_def exn_bind_def pre 7 8 9 del: py_item.simps)
  from assms obtain bp where 11: "to_percent brake = Inr bp"
    by (cases "to_percent brake")
      (simp_all add: build_payload_def exn_bind_def pre 7 8 9 10 del: py_item.simps)
  from assms have "pl = [(''track'', JStr (lower tn)),
           (''driver'', JStr dn),
           (''car'', JStr cn),
           (''lap'', JVal (PInt lap_count)),
           (''lastLap'', JStr llt),
           (''delta'', JStr []),
           (''speed'', JVal (PInt speed_int)),
           (''throttle'', JVal (PInt tp)),
           (''brake'', JVal (PInt bp)),
           (''x'', JVal (if vs = [] then PInt 0 else vs ! 0)),
           (''y'', JVal (if length vs < 3 then PInt 0 else vs ! 2))]"
    by (simp add: build_payload_def exn_bind_def pre 7 8 9 10 11 del: py_item.simps)
  with reads[unfolded pos] n1 n2 n3 7 8 9 10 11 show thesis
    using that by blast
qed

text \<open>The record built from reads and conversions that all return.\<close>

lemma build_payload_InrI:
  assumes "getCarState h SpeedKMH = Inr speed" "getCarState h Gas = Inr throttle"
    "getCarState h Brake = Inr brake" "getCarState h LapCount = Inr lap"
    "getCarState h LastLap = Inr last_lap" "getCarState h WorldPosition = Inr (PSeq vs)"
    "get_track_name h = Inr tn" "get_driver_name h = Inr dn" "get_car_name h = Inr cn"
    "(if lap \<noteq> PNone then py_int lap else Inr 0) = Inr lap_count"
    "format_lap_time last_lap = Inr llt"
    "(if speed \<noteq> PNone then py_int speed else Inr 0) = Inr speed_int"
    "to_percent throttle = Inr tp" "to_percent brake = Inr bp"
  shows "build_payload h =
     Inr [(''track'', JStr (lower tn)),
          (''driver'', JStr dn),
          (''car'', JStr cn),
          (''lap'', JVal (PInt lap_count)),
          (''lastLap'', JStr llt),
          (''delta'', JStr []),
          (''speed'', JVal (PInt speed_int)),
          (''throttle'', JVal (PInt tp)),
          (''brake'', JVal (PInt bp)),
          (''x'', JVal (if vs = [] then PInt 0 else vs ! 0)),
          (''y'', JVal (if length vs < 3 then PInt 0 else vs ! 2))]"
proof -
  have x: "(if vs \<noteq> [] then py_item (PSeq vs) 0 else Inr (PInt 0)) =
      Inr (if vs = [] then PInt 0 else vs ! 0)" by simp
  have y: "(if 2 < length vs then py_item (PSeq vs) 2 else Inr (PInt 0)) =
      Inr (if length vs < 3 then PInt 0 else vs ! 2)" by auto
  show ?thesis
    by (simp add: build_payload_def exn_bind_def assms x y Let_def del: py_item.simps)
qed

lemma exn_bind_simps:
  "exn_bind (Inr v) f = f v" "exn_bind (Inl e) f = Inl e"
  by (simp_all add: exn_bind_def)

lemma exn_bind_map_sum:
  "(\<And>v. g v = map_sum id f (g' v)) \<Longrightarrow> exn_bind m g = map_sum id f (exn_bind m g')"
  by (cases m) (simp_all add: exn_bind_def)

lemma publish_Inl_sent:
  assumes "publish h = Inl err"
  shows "sent (snd (acUpdate h now s)) = sent s"
  using assms
  by (auto simp: acUpdate_def on_error_def Let_def split: option.splits sum.splits)

lemma publish_Inr:
  assumes "build_payload h = Inr pl" "dumps h pl = Inr d" "sendto h d (UDP_HOST, UDP_PORT) = None"
  shows "publish h = Inr d"
  using assms by (simp add: publish_def exn_bind_def)

lemma acUpdate_publish:
  assumes "timer_ok s" "finite_double now" "1 / 10 \<le> elapsed now s"
    and "build_payload h = Inr pl" "dumps h pl = Inr d" "sendto h d (UDP_HOST, UDP_PORT) = None"
  shows "acUpdate h now s = (None, s\<lparr>last_send := now, sent := sent s @ [(d, UDP_HOST, UDP_PORT)]\<rparr>)"
proof -
  have "\<not> float_lt (float_sub now (last_send s)) SEND_INTERVAL"
    using acUpdate_guard[OF assms(1,2)] assms(3) by simp
  then show ?thesis using publish_Inr[OF assms(4-6)] by (simp add: acUpdate_def)
qed

lemma build_payload_read_fails:
  assumes "getCarState h c = Inl e"
  shows "\<exists>e'. build_payload h = Inl e'"
proof (cases "build_payload h")
  case (Inl a)
  then show ?thesis by blast
next
  case (Inr pl)
  then show ?thesis using assms by (elim build_payload_InrE) (cases c; simp)
qed

text \<open>An exception of \<open>ac.setText\<close> leaves the handler.\<close>

lemma setText_failure_escapes:
  assumes "\<not> float_lt (float_sub now (last_send s)) SEND_INTERVAL" "publish h = Inl err"
    and "is_exception err" "label s = Some l" "l \<noteq> 0" "err_text h err = Inr t"
    and "setText h l (''Telemetry error: '' @ t) = Some e"
  shows "fst (acUpdate h now s) = Some e"
  using assms by (simp add: acUpdate_def on_error_def)

lemma format_lap_time_nonpos_float:
  "float_le f (Fin 0) \<Longrightarrow> format_lap_time (PFloat f) = Inr []"
  by (simp add: format_lap_time_def exn_bind_def)

subsection \<open>Percentages and rounding\<close>

lemma nearest_nonneg: "0 \<le> q \<Longrightarrow> 0 \<le> nearest q"
proof -
  assume "0 \<le> q"
  then have "0 \<le> q / ulp q" by (simp add: less_imp_le)
  then have "round_half_even 0 \<le> round_half_even (q / ulp q)" by (rule round_half_even_mono)
  then have "(0::rat) \<le> of_int (round_half_even (q / ulp q))" by simp
  then show ?thesis unfolding nearest_def by (simp add: less_imp_le)
qed

text \<open>Rounding does not cross a whole number that lies on the grid of the binade.\<close>

lemma nearest_le_int:
  assumes "0 < q" "q \<le> of_int c" "q < 2 ^ 52"
  shows "nearest q \<le> of_int c"
proof -
  have q0: "q \<noteq> 0" using assms(1) by simp
  define i where "i = ilog2 q"
  define j where "j = max i (- 1022) - 52"
  have "2 powi i \<le> q" using ilog2_bounds(1)[OF q0] assms(1) by (simp add: i_def)
  then have "(2::rat) powi i < 2 powi 52" using assms(3) by simp
  then have "i < 52" by (simp only: two_powi_less)
  then have j0: "j \<le> 0" by (simp add: j_def)
  define k where "k = nat (- j)"
  have u: "ulp q = 2 powi j" by (simp add: ulp_def i_def j_def)
  have "(2::rat) powi j * 2 ^ k = 2 powi (j + int k)" by (simp add: two_powi_add)
  also have "\<dots> = 1" using j0 by (simp add: k_def)
  finally have one: "(2::rat) powi j * 2 ^ k = 1" .
  then have inv: "1 / (2::rat) powi j = 2 ^ k" by (simp add: field_simps)
  have "q / ulp q \<le> of_int c / ulp q"
    using assms(2) by (intro divide_right_mono) (simp_all add: less_imp_le)
  also have "of_int c / ulp q = of_int (c * 2 ^ k)"
    using inv by (simp add: u field_simps)
  finally have "round_half_even (q / ulp q) \<le> round_half_even (of_int (c * 2 ^ k))"
    by (rule round_half_even_mono)
  then have "round_half_even (q / ulp q) \<le> c * 2 ^ k" by (simp only: round_half_even_of_int)
  then have "(of_int (round_half_even (q / ulp q)) :: rat) \<le> of_int (c * 2 ^ k)"
    by (simp only: of_int_le_iff)
  then have "nearest q \<le> of_int (c * 2 ^ k) * 2 powi j"
    unfolding nearest_def u by (intro mult_right_mono) simp_all
  also have "\<dots> = of_int c" using one by (simp add: mult.assoc mult.commute)
  finally show ?thesis .
qed

lemma nearest_ge_int:
  assumes "0 < q" "of_int c \<le> q" "q < 2 ^ 52"
  shows "of_int c \<le> nearest q"
proof -
  have q0: "q \<noteq> 0" using assms(1) by simp
  define i where "i = ilog2 q"
  define j where "j = max i (- 1022) - 52"
  have "2 powi i \<le> q" using ilog2_bounds(1)[OF q0] assms(1) by (simp add: i_def)
  then have "(2::rat) powi i < 2 powi 52" using assms(3) by simp
  then have "i < 52" by (simp only: two_powi_less)
  then have j0: "j \<le> 0" by (simp add: j_def)
  define k where "k = nat (- j)"
  have u: "ulp q = 2 powi j" by (simp add: ulp_def i_def j_def)
  have "(2::rat) powi j * 2 ^ k = 2 powi (j + int k)" by (simp add: two_powi_add)
  also have "\<dots> = 1" using j0 by (simp add: k_def)
  finally have one: "(2::rat) powi j * 2 ^ k = 1" .
  then have inv: "1 / (2::rat) powi j = 2 ^ k" by (simp add: field_simps)
  have "of_int c / ulp q \<le> q / ulp q"
    using assms(2) by (intro divide_right_mono) (simp_all add: less_imp_le)
  moreover have "of_int c / ulp q = of_int (c * 2 ^ k)"
    using inv by (simp add: u field_simps)
  ultimately have "round_half_even (of_int (c * 2 ^ k)) \<le> round_half_even (q / ulp q)"
    using round_half_even_mono by simp
  then have "c * 2 ^ k \<le> round_half_even (q / ulp q)" by (simp only: round_half_even_of_int)
  then have "(of_int (c * 2 ^ k) :: rat) \<le> of_int (round_half_even (q / ulp q))"
    by (simp only: of_int_le_iff)
  then have a: "of_int (c * 2 ^ k) * 2 powi j \<le> nearest q"
    unfolding nearest_def u by (intro mult_right_mono) simp_all
  have b: "of_int (c * 2 ^ k) * 2 powi j = (of_int c :: rat)"
    using one by (simp add: mult.assoc mult.commute)
  show ?thesis using a unfolding b .
qed

text \<open>Up to 128 the doubles are at most \<open>2 ^ - 46\<close> apart, so rounding moves a value by at most \<open>2 ^ - 47\<close>.\<close>

lemma nearest_error_128:
  assumes "0 < q" "q < 128"
  shows "\<bar>nearest q - q\<bar> \<le> 1 / 2 ^ 47"
proof -
  have q0: "q \<noteq> 0" using assms(1) by simp
  define j where "j = max (ilog2 q) (- 1022) - 52"
  have "2 powi ilog2 q \<le> q" using ilog2_bounds(1)[OF q0] assms(1) by simp
  then have "(2::rat) powi ilog2 q < 2 powi 7" using assms(2) by simp
  then have "ilog2 q < 7" by (simp only: two_powi_less)
  then have j: "j \<le> - 46" by (simp add: j_def)
  have u: "ulp q = 2 powi j" by (simp add: ulp_def j_def)
  have "(2::rat) powi j \<le> 2 powi (- 46)" using j by (simp only: two_powi_le)
  then have ule: "ulp q \<le> 1 / 2 ^ 46" by (simp add: u power_int_minus divide_simps)
  define r where "r = round_half_even (q / ulp q)"
  have "\<bar>of_int r - q / ulp q\<bar> \<le> 1 / 2"
    using round_half_even_bounds[of "q / ulp q"] unfolding r_def by linarith
  then have m: "\<bar>of_int r - q / ulp q\<bar> * ulp q \<le> 1 / 2 * ulp q"
    by (intro mult_right_mono) (simp_all add: less_imp_le)
  have e: "\<bar>of_int r - q / ulp q\<bar> * ulp q = \<bar>of_int r * ulp q - q\<bar>"
  proof -
    have "\<bar>of_int r - q / ulp q\<bar> * ulp q = \<bar>(of_int r - q / ulp q) * ulp q\<bar>"
      by (simp add: abs_mult less_imp_le)
    also have "(of_int r - q / ulp q) * ulp q = of_int r * ulp q - q"
      by (simp add: left_diff_distrib u)
    finally show ?thesis .
  qed
  have "\<bar>nearest q - q\<bar> \<le> 1 / 2 * ulp q"
    using m unfolding e by (simp only: nearest_def r_def)
  also have "1 / 2 * ulp q \<le> 1 / 2 ^ 47" using ule by simp
  finally show ?thesis .
qed

text \<open>
  The percentage of a value \<open>t\<close> between 0 and 1: the integer part of the double nearest
  to \<open>100 * t\<close>. It is the integer part of \<open>100 * t\<close> itself, unless \<open>100 * t\<close> lies within
  \<open>2 ^ - 47\<close> below a whole number, where rounding may reach that number.
\<close>

lemma to_percent_unit:
  assumes "0 \<le> t" "t \<le> 1"
  shows "to_percent (PFloat (Fin t)) = Inr \<lfloor>nearest (t * 100)\<rfloor>"
    and "\<lfloor>t * 100\<rfloor> \<le> \<lfloor>nearest (t * 100)\<rfloor>"
    and "\<lfloor>nearest (t * 100)\<rfloor> \<le> \<lfloor>t * 100 + 1 / 2 ^ 47\<rfloor>"
proof -
  show "to_percent (PFloat (Fin t)) = Inr \<lfloor>nearest (t * 100)\<rfloor>"
  proof (cases "t = 0")
    case True
    then show ?thesis by (simp add: to_percent_def py_or_zero_def exn_bind_def)
  next
    case False
    then have pos: "0 < t * 100" using assms(1) by simp
    have le: "t * 100 \<le> of_int 100" using assms(2) by simp
    have lo: "0 \<le> nearest (t * 100)" using pos by (intro nearest_nonneg) simp
    have hi: "nearest (t * 100) \<le> 100"
      using nearest_le_int[OF pos le] assms(2) by simp
    show ?thesis
      using False pos lo hi
      by (auto simp: to_percent_def py_or_zero_def exn_bind_def float_mul_def rnd_def Let_def
          trunc_nonneg)
  qed
  show "\<lfloor>t * 100\<rfloor> \<le> \<lfloor>nearest (t * 100)\<rfloor>"
  proof (cases "t = 0")
    case True
    then show ?thesis by simp
  next
    case False
    then have pos: "0 < t * 100" using assms(1) by simp
    have "of_int \<lfloor>t * 100\<rfloor> \<le> t * 100" by simp
    then have "of_int \<lfloor>t * 100\<rfloor> \<le> nearest (t * 100)"
      using pos assms(2) by (intro nearest_ge_int) simp_all
    then show ?thesis by (simp add: le_floor_iff)
  qed
  show "\<lfloor>nearest (t * 100)\<rfloor> \<le> \<lfloor>t * 100 + 1 / 2 ^ 47\<rfloor>"
  proof (cases "t = 0")
    case True
    then show ?thesis by simp
  next
    case False
    then have pos: "0 < t * 100" using assms(1) by simp
    have "\<bar>nearest (t * 100) - t * 100\<bar> \<le> 1 / 2 ^ 47"
      using pos assms(2) by (intro nearest_error_128) simp_all
    then have "nearest (t * 100) \<le> t * 100 + 1 / 2 ^ 47" by linarith
    then show ?thesis by (rule floor_mono)
  qed
qed

subsection \<open>Exceptions that the handler catches\<close>

lemma catchable_Inr [simp]: "catchable (Inr v)"
  by (simp add: catchable_def)

lemma catchable_Inl [simp]: "catchable (Inl e) = is_exception e"
  by (simp add: catchable_def)

lemma catchable_bind:
  assumes "catchable m" "\<And>v. catchable (f v)"
  shows "catchable (exn_bind m f)"
  using assms by (cases m) (simp_all add: exn_bind_def)

lemma catchable_float_of_int [simp]: "catchable (float_of_int n)"
  by (simp add: float_of_int_def split: pyfloat.splits)

lemma catchable_py_int [simp]: "catchable (py_int v)"
  by (cases v rule: py_int.cases) simp_all

lemma catchable_py_len [simp]: "catchable (py_len v)"
  by (cases v) simp_all

lemma catchable_py_item [simp]: "catchable (py_item v i)"
  by (cases v) simp_all

lemma catchable_py_mul [simp]: "catchable (py_mul v k)"
  by (cases v) (simp_all add: catchable_bind)

lemma catchable_py_le [simp]: "catchable (py_le v k)"
  by (cases v) simp_all

lemma catchable_py_floordiv [simp]: "catchable (py_floordiv v k)"
  by (cases v) simp_all

lemma catchable_py_sub [simp]: "catchable (py_sub v k)"
  by (cases v) (simp_all add: catchable_bind)

lemma catchable_fmt_06_3f [simp]: "catchable (fmt_06_3f v)"
  by (cases v) (simp_all add: catchable_bind)

lemma catchable_to_percent [simp]: "catchable (to_percent v)"
  by (simp add: to_percent_def catchable_bind)

lemma catchable_format_lap_time [simp]: "catchable (format_lap_time v)"
  by (simp add: format_lap_time_def catchable_bind)

lemma catchable_get_track_name [simp]: "catchable (get_track_name h) = catchable (getTrackName h)"
  by (simp add: get_track_name_def split: sum.splits)

lemma catchable_get_driver_name [simp]: "catchable (get_driver_name h) = catchable (getDriverName h)"
  by (simp add: get_driver_name_def split: sum.splits)

lemma catchable_get_car_name [simp]: "catchable (get_car_name h) = catchable (getCarName h)"
  by (simp add: get_car_name_def split: sum.splits)

text \<open>The interpreter itself raises instances of \<open>Exception\<close> only.\<close>

lemma catchable_build_payload:
  assumes "catchable (getTrackName h)" "catchable (getDriverName h)" "catchable (getCarName h)"
    and "\<And>c. catchable (getCarState h c)"
  shows "catchable (build_payload h)"
  unfolding build_payload_def Let_def
  by (intro catchable_bind) (simp_all add: assms)

lemma catchable_publish:
  assumes "catchable (build_payload h)" "\<And>pl. catchable (dumps h pl)"
    and "\<And>d a e. sendto h d a = Some e \<Longrightarrow> is_exception e"
  shows "catchable (publish h)"
  unfolding publish_def
  by (intro catchable_bind) (auto simp: assms split: option.splits)

subsection \<open>Replacing one read\<close>

lemma with_read_simps [simp]:
  "getCarState (with_read h c v) c' = (if c' = c then Inr v else getCarState h c')"
  "get_track_name (with_read h c v) = get_track_name h"
  "get_driver_name (with_read h c v) = get_driver_name h"
  "get_car_name (with_read h c v) = get_car_name h"
  by (simp_all add: with_read_def get_track_name_def get_driver_name_def get_car_name_def)

lemma build_payload_position:
  assumes "build_payload h = Inr pl"
  shows "build_payload (with_read h WorldPosition (PSeq vs)) =
     Inr (pl[9 := (''x'', JVal (if vs = [] then PInt 0 else vs ! 0)),
             10 := (''y'', JVal (if length vs < 3 then PInt 0 else vs ! 2))])"
  using assms
  by (elim build_payload_InrE, subst build_payload_InrI[where h = "with_read h WorldPosition (PSeq vs)"])
    simp_all

lemma build_payload_throttle:
  assumes "build_payload h = Inr pl" "to_percent v = Inr p"
  shows "build_payload (with_read h Gas v) = Inr (pl[7 := (''throttle'', JVal (PInt p))])"
  using assms
  by (elim build_payload_InrE, subst build_payload_InrI[where h = "with_read h Gas v"])
    simp_all

lemma build_payload_brake:
  assumes "build_payload h = Inr pl" "to_percent v = Inr p"
  shows "build_payload (with_read h Brake v) = Inr (pl[8 := (''brake'', JVal (PInt p))])"
  using assms
  by (elim build_payload_InrE, subst build_payload_InrI[where h = "with_read h Brake v"])
    simp_all

section \<open>The properties of the specification\<close>

text \<open>
  C1, amended. When every exception raised by the name accessors, by \<open>ac.getCarState\<close>,
  by the JSON encoder and by the socket is an instance of \<open>Exception\<close> and, in case a
  label is set, the formatting of the error text and \<open>ac.setText\<close> return, \<open>acUpdate\<close>
  returns normally: no exception reaches the host.
\<close>

theorem tick_returns_normally:
  assumes "catchable (getTrackName h)" "catchable (getDriverName h)" "catchable (getCarName h)"
    and "\<forall>c. catchable (getCarState h c)" "\<forall>pl. catchable (dumps h pl)"
    and "\<forall>d a e. sendto h d a = Some e \<longrightarrow> is_exception e"
    and "\<forall>l. label s = Some l \<and> l \<noteq> 0 \<longrightarrow>
           (\<forall>err. \<exists>t. err_text h err = Inr t) \<and> (\<forall>txt. setText h l txt = None)"
  shows "fst (acUpdate h now s) = None"
proof -
  have "catchable (build_payload h)"
    using assms(1-4) by (intro catchable_build_payload) simp_all
  then have c: "catchable (publish h)"
    using assms(5,6) by (intro catchable_publish) auto
  show ?thesis
  proof (cases "publish h")
    case (Inr d)
    then show ?thesis by (simp add: acUpdate_def Let_def)
  next
    case (Inl err)
    with c have e: "is_exception err" by simp
    show ?thesis
    proof (cases "\<exists>l. label s = Some l \<and> l \<noteq> 0")
      case False
      then show ?thesis
        by (auto simp: acUpdate_def on_error_def Let_def Inl e split: option.splits)
    next
      case True
      then obtain l where l: "label s = Some l" "l \<noteq> 0" by blast
      with assms(7) obtain t where t: "err_text h err = Inr t" by blast
      from assms(7) l have "setText h l (''Telemetry error: '' @ t) = None" by blast
      then show ?thesis
        by (simp add: acUpdate_def on_error_def Let_def Inl e l t)
    qed
  qed
qed

text \<open>
  On a host where every read, the encoder and the socket raise, with a label in place:
  the tick returns and the label shows the error.
\<close>

theorem tick_returns_normally_witness:
  "catchable (getTrackName failing_host) \<and> catchable (getDriverName failing_host) \<and>
   catchable (getCarName failing_host) \<and> (\<forall>c. catchable (getCarState failing_host c)) \<and>
   (\<forall>pl. catchable (dumps failing_host pl)) \<and>
   (\<forall>d a. sendto failing_host d a = Some (HostError ''socket'')) \<and>
   is_exception (HostError ''socket'') \<and>
   label (init_state (Some 7)) = Some 7 \<and>
   (\<forall>err. err_text failing_host err = Inr ''error'') \<and>
   (\<forall>txt. setText failing_host 7 txt = None) \<and>
   publish failing_host = Inl (HostError ''state'') \<and>
   fst (acUpdate failing_host (Fin 1) (init_state (Some 7))) = None \<and>
   shown (snd (acUpdate failing_host (Fin 1) (init_state (Some 7)))) = [(7, ''Telemetry error: error'')]"
proof -
  have p: "publish failing_host = Inl (HostError ''state'')"
    by (simp add: publish_def build_payload_def exn_bind_def failing_host_def)
  have n: "fst (acUpdate failing_host (Fin 1) (init_state (Some 7))) = None"
    using tick_returns_normally[where s = "init_state (Some 7)" and h = failing_host and now = "Fin 1"]
    by (simp add: failing_host_def)
  have t: "shown (snd (acUpdate failing_host (Fin 1) (init_state (Some 7)))) = [(7, ''Telemetry error: error'')]"
    by (simp add: acUpdate_def p on_error_def init_state_def SEND_INTERVAL_value)
      (simp add: failing_host_def)
  from p n t show ?thesis by (simp add: init_state_def failing_host_def)
qed

text \<open>
  As first stated, the property held under any behaviour of the accessors, the encoder
  and the socket. Three ticks at the clock reading 1 from which an exception reaches the
  host: the reads fail and \<open>ac.setText\<close> raises in the \<open>except\<close> branch; the reads fail and
  the text of the exception cannot be formatted there; a read raises
  \<open>KeyboardInterrupt\<close>, which \<open>except Exception\<close> does not catch.
\<close>

theorem exception_escapes_counterexample:
  "fst (acUpdate label_fails_host (Fin 1) (init_state (Some 7))) = Some (HostError ''label'') \<and>
   fst (acUpdate unprintable_host (Fin 1) (init_state (Some 7))) = Some (HostError ''str'') \<and>
   fst (acUpdate interrupted_host (Fin 1) (init_state None)) = Some (BaseError ''KeyboardInterrupt'')"
proof -
  have a: "publish label_fails_host = Inl (HostError ''state'')"
    by (simp add: publish_def build_payload_def exn_bind_def label_fails_host_def failing_host_def)
  have b: "publish unprintable_host = Inl (HostError ''state'')"
    by (simp add: publish_def build_payload_def exn_bind_def unprintable_host_def failing_host_def)
  have c: "publish interrupted_host = Inl (BaseError ''KeyboardInterrupt'')"
    by (simp add: publish_def build_payload_def exn_bind_def interrupted_host_def)
  have 1: "fst (acUpdate label_fails_host (Fin 1) (init_state (Some 7))) = Some (HostError ''label'')"
    by (simp add: acUpdate_def a on_error_def init_state_def SEND_INTERVAL_value)
      (simp add: label_fails_host_def failing_host_def)
  have 2: "fst (acUpdate unprintable_host (Fin 1) (init_state (Some 7))) = Some (HostError ''str'')"
    by (simp add: acUpdate_def b on_error_def init_state_def SEND_INTERVAL_value)
      (simp add: unprintable_host_def)
  have 3: "fst (acUpdate interrupted_host (Fin 1) (init_state None)) = Some (BaseError ''KeyboardInterrupt'')"
    by (simp add: acUpdate_def c init_state_def SEND_INTERVAL_value)
  from 1 2 3 show ?thesis by simp
qed

text \<open>
  C2, amended. A name accessor (track, driver or car) that raises an instance of
  \<open>Exception\<close> is recovered on the spot: the record is the one built had the accessor
  returned a name, with the empty string in the entry of that accessor and every other
  entry unchanged. A record that is built, serialised and accepted by the socket is sent
  as one datagram, so the car-name accessor raising does not prevent the send and gives
  an empty \<open>car\<close>. When a car-state read raises, the tick sends no datagram.
\<close>

theorem name_failure_recovered:
  "(is_exception e \<longrightarrow>
      build_payload (h\<lparr>getTrackName := Inl e\<rparr>) =
        map_sum id (\<lambda>pl. pl[0 := (''track'', JStr [])]) (build_payload (h\<lparr>getTrackName := Inr n\<rparr>))
    \<and> build_payload (h\<lparr>getDriverName := Inl e\<rparr>) =
        map_sum id (\<lambda>pl. pl[1 := (''driver'', JStr [])]) (build_payload (h\<lparr>getDriverName := Inr n\<rparr>))
    \<and> build_payload (h\<lparr>getCarName := Inl e\<rparr>) =
        map_sum id (\<lambda>pl. pl[2 := (''car'', JStr [])]) (build_payload (h\<lparr>getCarName := Inr n\<rparr>)))
   \<and> (\<forall>pl d. timer_ok s \<and> finite_double now \<and> 1 / 10 \<le> elapsed now s \<and>
         build_payload h = Inr pl \<and> dumps h pl = Inr d \<and> sendto h d (UDP_HOST, UDP_PORT) = None \<longrightarrow>
         acUpdate h now s = (None, s\<lparr>last_send := now, sent := sent s @ [(d, UDP_HOST, UDP_PORT)]\<rparr>))
   \<and> (\<forall>c e'. getCarState h c = Inl e' \<longrightarrow> sent (snd (acUpdate h now s)) = sent s)"
proof (intro conjI allI impI)
  assume ex: "is_exception e"
  show "build_payload (h\<lparr>getTrackName := Inl e\<rparr>) =
     map_sum id (\<lambda>pl. pl[0 := (''track'', JStr [])]) (build_payload (h\<lparr>getTrackName := Inr n\<rparr>))"
    unfolding build_payload_def get_track_name_def get_driver_name_def get_car_name_def Let_def
    by (simp add: ex exn_bind_simps) (intro exn_bind_map_sum, simp add: lower_def)
  show "build_payload (h\<lparr>getDriverName := Inl e\<rparr>) =
     map_sum id (\<lambda>pl. pl[1 := (''driver'', JStr [])]) (build_payload (h\<lparr>getDriverName := Inr n\<rparr>))"
    unfolding build_payload_def get_track_name_def get_driver_name_def get_car_name_def Let_def
    by (simp add: ex exn_bind_simps) (intro exn_bind_map_sum, simp)
  show "build_payload (h\<lparr>getCarName := Inl e\<rparr>) =
     map_sum id (\<lambda>pl. pl[2 := (''car'', JStr [])]) (build_payload (h\<lparr>getCarName := Inr n\<rparr>))"
    unfolding build_payload_def get_track_name_def get_driver_name_def get_car_name_def Let_def
    by (simp add: ex exn_bind_simps) (intro exn_bind_map_sum, simp)
next
  fix pl d
  assume "timer_ok s \<and> finite_double now \<and> 1 / 10 \<le> elapsed now s \<and>
     build_payload h = Inr pl \<and> dumps h pl = Inr d \<and> sendto h d (UDP_HOST, UDP_PORT) = None"
  then show "acUpdate h now s = (None, s\<lparr>last_send := now, sent := sent s @ [(d, UDP_HOST, UDP_PORT)]\<rparr>)"
    using acUpdate_publish by blast
next
  fix c e'
  assume "getCarState h c = Inl e'"
  then obtain e'' where "build_payload h = Inl e''" using build_payload_read_fails by blast
  then have "publish h = Inl e''" by (simp add: publish_def exn_bind_def)
  then show "sent (snd (acUpdate h now s)) = sent s" by (rule publish_Inl_sent)
qed

text \<open>The car-name accessor raises in the scenario; then the speed read raises instead.\<close>

theorem name_failure_recovered_witness:
  "is_exception (HostError ''car'')
   \<and> build_payload (scenario_host\<lparr>getCarName := Inl (HostError ''car'')\<rparr>) =
     Inr (scenario_record[2 := (''car'', JStr [])])
   \<and> timer_ok (init_state None) \<and> finite_double (Fin 1) \<and> 1 / 10 \<le> elapsed (Fin 1) (init_state None)
   \<and> acUpdate (scenario_host\<lparr>getCarName := Inl (HostError ''car'')\<rparr>) (Fin 1) (init_state None) =
       (None, (init_state None)\<lparr>last_send := Fin 1,
          sent := [(''trackdrivercarlaplastLapdeltaspeedthrottlebrakexy'', UDP_HOST, UDP_PORT)]\<rparr>)
   \<and> getCarState (scenario_with speed_fails) SpeedKMH = Inl (HostError ''speed'')
   \<and> sent (snd (acUpdate (scenario_with speed_fails) (Fin 1) (init_state None))) = []"
proof -
  let ?h = "scenario_host\<lparr>getCarName := Inl (HostError ''car'')\<rparr>"
  have same: "scenario_host\<lparr>getCarName := Inr ''F1_2020''\<rparr> = scenario_host"
    by (simp add: scenario_host_def)
  have pl: "build_payload ?h = Inr (scenario_record[2 := (''car'', JStr [])])"
    using name_failure_recovered[where h = scenario_host and e = "HostError ''car''"
        and n = "''F1_2020''"]
    by (simp add: same scenario_host_payload)
  have ok: "timer_ok (init_state None)" "finite_double (Fin 1)" "1 / 10 \<le> elapsed (Fin 1) (init_state None)"
    by (simp_all add: timer_ok_def finite_double_def is_double_def elapsed_def init_state_def)
  have d: "dumps ?h (scenario_record[2 := (''car'', JStr [])]) = Inr ''trackdrivercarlaplastLapdeltaspeedthrottlebrakexy''"
    by (simp add: scenario_host_def scenario_record_def)
  have s: "sendto ?h ''trackdrivercarlaplastLapdeltaspeedthrottlebrakexy'' (UDP_HOST, UDP_PORT) = None"
    by (simp add: scenario_host_def)
  have a: "acUpdate ?h (Fin 1) (init_state None) =
       (None, (init_state None)\<lparr>last_send := Fin 1,
          sent := [(''trackdrivercarlaplastLapdeltaspeedthrottlebrakexy'', UDP_HOST, UDP_PORT)]\<rparr>)"
    using name_failure_recovered[where h = ?h and s = "init_state None" and now = "Fin 1"
        and e = "HostError ''car''" and n = "[]"] ok pl d s
    by (simp add: init_state_def)
  have r: "getCarState (scenario_with speed_fails) SpeedKMH = Inl (HostError ''speed'')"
    by (simp add: scenario_with_def speed_fails_def)
  have n: "sent (snd (acUpdate (scenario_with speed_fails) (Fin 1) (init_state None))) = []"
    using name_failure_recovered[where h = "scenario_with speed_fails" and s = "init_state None"
        and now = "Fin 1" and e = "HostError ''car''" and n = "[]"] r
    by (auto simp: init_state_def)
  from pl ok a r n show ?thesis by simp
qed

text \<open>
  As first stated, the property promised a datagram whichever read raises, with a zero in
  the field of a numeric read. With the speed read raising and every other read working,
  the tick reaches the publish phase (the timestamp moves to the reading 1) and sends
  nothing. With the car-name accessor raising \<open>KeyboardInterrupt\<close>, which is not an
  instance of \<open>Exception\<close>, the tick sends nothing either and the exception reaches the
  host.
\<close>

theorem read_failure_counterexample:
  "acUpdate (scenario_with speed_fails) (Fin 1) (init_state None) =
     (None, \<lparr>last_send = Fin 1, label = None, sent = [], shown = []\<rparr>) \<and>
   acUpdate car_name_interrupted_host (Fin 1) (init_state None) =
     (Some (BaseError ''KeyboardInterrupt''), \<lparr>last_send = Fin 1, label = None, sent = [], shown = []\<rparr>)"
proof -
  have "build_payload (scenario_with speed_fails) = Inl (HostError ''speed'')"
    by (simp add: build_payload_def exn_bind_def scenario_with_def speed_fails_def)
  then have "publish (scenario_with speed_fails) = Inl (HostError ''speed'')"
    by (simp add: publish_def exn_bind_def)
  then have 1: "acUpdate (scenario_with speed_fails) (Fin 1) (init_state None) =
     (None, \<lparr>last_send = Fin 1, label = None, sent = [], shown = []\<rparr>)"
    by (simp add: acUpdate_def on_error_def init_state_def SEND_INTERVAL_value)
  have "build_payload car_name_interrupted_host = Inl (BaseError ''KeyboardInterrupt'')"
    by (simp add: build_payload_def exn_bind_def car_name_interrupted_host_def scenario_host_def
        scenario_state_def get_track_name_def get_driver_name_def get_car_name_def Let_def)
  then have "publish car_name_interrupted_host = Inl (BaseError ''KeyboardInterrupt'')"
    by (simp add: publish_def exn_bind_def)
  then have 2: "acUpdate car_name_interrupted_host (Fin 1) (init_state None) =
     (Some (BaseError ''KeyboardInterrupt''), \<lparr>last_send = Fin 1, label = None, sent = [], shown = []\<rparr>)"
    by (simp add: acUpdate_def init_state_def SEND_INTERVAL_value)
  from 1 2 show ?thesis by simp
qed

text \<open>
  C3. When at least 100 ms have elapsed since the stored timestamp, the timestamp becomes
  the current clock reading whatever the reads, the encoder and the socket do afterwards,
  so also when they fail; and every later tick whose reading is less than 100 ms after
  it returns without doing anything.
\<close>

theorem timestamp_set_before_publish:
  assumes "timer_ok s" "finite_double now" "1 / 10 \<le> elapsed now s"
  shows "last_send (snd (acUpdate h now s)) = now \<and>
    (\<forall>h' now'. finite_double now' \<and> fval now' - fval now < 1 / 10 \<longrightarrow>
       acUpdate h' now' (snd (acUpdate h now s)) = (None, snd (acUpdate h now s)))"
proof -
  have g: "\<not> float_lt (float_sub now (last_send s)) SEND_INTERVAL"
    using acUpdate_guard[OF assms(1,2)] assms(3) by simp
  have l: "last_send (snd (acUpdate h now s)) = now" using acUpdate_attempt(1)[OF g] .
  have ok: "timer_ok (snd (acUpdate h now s))" using timer_ok_acUpdate[OF assms(1,2)] .
  show ?thesis
  proof (intro conjI allI impI)
    show "last_send (snd (acUpdate h now s)) = now" by (rule l)
  next
    fix h' now'
    assume a: "finite_double now' \<and> fval now' - fval now < 1 / 10"
    then have "elapsed now' (snd (acUpdate h now s)) < 1 / 10" by (simp add: elapsed_def l)
    with ok a show "acUpdate h' now' (snd (acUpdate h now s)) = (None, snd (acUpdate h now s))"
      using acUpdate_guard acUpdate_skip by blast
  qed
qed

text \<open>A tick on which everything fails, followed by a tick 62.5 ms later on a host that works.\<close>

theorem timestamp_set_before_publish_witness:
  "timer_ok (init_state None) \<and> finite_double (Fin 1) \<and> 1 / 10 \<le> elapsed (Fin 1) (init_state None) \<and>
   last_send (snd (acUpdate failing_host (Fin 1) (init_state None))) = Fin 1 \<and>
   finite_double (Fin (17 / 16)) \<and> fval (Fin (17 / 16)) - fval (Fin 1) < 1 / 10 \<and>
   acUpdate scenario_host (Fin (17 / 16)) (snd (acUpdate failing_host (Fin 1) (init_state None))) =
     (None, snd (acUpdate failing_host (Fin 1) (init_state None)))"
proof -
  have "is_double (17 / 16)" using is_double_dyadic[of 17 "- 4"] by simp
  then have ok: "timer_ok (init_state None)" "finite_double (Fin 1)"
    "1 / 10 \<le> elapsed (Fin 1) (init_state None)" "finite_double (Fin (17 / 16))"
    "fval (Fin (17 / 16)) - fval (Fin 1) < 1 / 10"
    by (simp_all add: timer_ok_def finite_double_def is_double_def elapsed_def init_state_def)
  from timestamp_set_before_publish[OF ok(1-3), of failing_host] ok show ?thesis by blast
qed

text \<open>
  C4. In every run of the handler, over any sequence of finite clock readings, the
  readings of any two ticks that sent a datagram are at least 100 ms apart.
\<close>

theorem sends_spaced_by_interval:
  assumes "\<forall>tick \<in> set ticks. finite_double (snd tick)" "timer_ok s"
  shows "\<forall>i j. i < j \<and> j < length (send_times ticks s) \<longrightarrow>
      1 / 10 \<le> fval (send_times ticks s ! j) - fval (send_times ticks s ! i)"
proof -
  have "sorted_wrt (\<lambda>a b. 1 / 10 \<le> b - a) (map fval (send_times ticks s))"
    using send_times_sorted[OF assms] by simp
  then show ?thesis by (auto simp: sorted_wrt_iff_nth_less)
qed

text \<open>Four ticks at 1 s, 1.0625 s, 1.5 s (on the failing host) and 2 s: datagrams leave at 1 s and 2 s.\<close>

theorem sends_spaced_by_interval_witness:
  "finite_double (Fin 1) \<and> finite_double (Fin (17 / 16)) \<and> finite_double (Fin (3 / 2)) \<and>
   finite_double (Fin 2) \<and> timer_ok (init_state None) \<and>
   send_times [(scenario_host, Fin 1), (scenario_host, Fin (17 / 16)), (failing_host, Fin (3 / 2)),
       (scenario_host, Fin 2)] (init_state None) = [Fin 1, Fin 2] \<and>
   1 / 10 \<le> fval ([Fin 1, Fin 2] ! 1) - fval ([Fin 1, Fin 2] ! 0)"
proof -
  let ?ticks = "[(scenario_host, Fin 1), (scenario_host, Fin (17 / 16)), (failing_host, Fin (3 / 2)),
    (scenario_host, Fin 2)]"
  have d: "is_double (17 / 16)" "is_double (3 / 2)" "is_double 1" "is_double 2"
    using is_double_dyadic[of 17 "- 4"] is_double_dyadic[of 3 "- 1"] by (simp_all add: is_double_def)
  then have fd: "\<forall>tick \<in> set ?ticks. finite_double (snd tick)" by (simp add: finite_double_def)
  have ok: "timer_ok (init_state None)" by (rule timer_ok_init)
  have p: "publish scenario_host = Inr ''trackdrivercarlaplastLapdeltaspeedthrottlebrakexy''"
    by (simp add: publish_def exn_bind_def scenario_host_payload)
      (simp add: scenario_host_def scenario_record_def)
  have q: "publish failing_host = Inl (HostError ''state'')"
    by (simp add: publish_def build_payload_def exn_bind_def failing_host_def)
  have r: "rnd (1 / 16) = Fin (1 / 16)" "rnd (1 / 2) = Fin (1 / 2)" "rnd (7 / 16) = Fin (7 / 16)"
    using rnd_dyadic[of 1 "- 4"] rnd_dyadic[of 1 "- 1"] rnd_dyadic[of 7 "- 4"] by simp_all
  have st: "send_times ?ticks (init_state None) = [Fin 1, Fin 2]"
    by (simp add: acUpdate_def init_state_def SEND_INTERVAL_value p q r on_error_def Let_def)
  from sends_spaced_by_interval[OF fd ok] st have
    "1 / 10 \<le> fval ([Fin 1, Fin 2] ! 1) - fval ([Fin 1, Fin 2] ! 0)" by simp
  with d ok st show ?thesis by (simp add: finite_double_def)
qed

text \<open>
  C5. When less than 100 ms have elapsed since the stored timestamp, \<open>acUpdate\<close> returns
  at once and leaves the state as it was: no datagram, the timestamp and the label texts
  unchanged.
\<close>

theorem skip_within_interval:
  assumes "timer_ok s" "finite_double now" "elapsed now s < 1 / 10"
  shows "acUpdate h now s = (None, s)"
  using assms by (rule acUpdate_skip_elapsed)

text \<open>A tick 62.5 ms after the module was loaded.\<close>

theorem skip_within_interval_witness:
  "timer_ok (init_state None) \<and> finite_double (Fin (1 / 16)) \<and>
   elapsed (Fin (1 / 16)) (init_state None) < 1 / 10 \<and>
   acUpdate scenario_host (Fin (1 / 16)) (init_state None) = (None, init_state None)"
proof -
  have "is_double (1 / 16)" using is_double_dyadic[of 1 "- 4"] by simp
  then have ok: "timer_ok (init_state None)" "finite_double (Fin (1 / 16))"
    "elapsed (Fin (1 / 16)) (init_state None) < 1 / 10"
    by (simp_all add: timer_ok_def finite_double_def elapsed_def init_state_def)
  then show ?thesis using skip_within_interval[of "init_state None" "Fin (1 / 16)" scenario_host] by simp
qed

text \<open>
  C6. With track \<open>Monza\<close>, driver \<open>Ayrton\<close>, car \<open>F1_2020\<close>, speed 210.7, throttle 0.8,
  brake 0.0, lap 3, last lap 91.123 and position \<open>[10.0, 0.0, 20.0]\<close>, a tick that publishes
  builds exactly the record \<open>scenario_record\<close> (track in lower case, speed truncated, delta
  empty) and sends its serialisation as one datagram.
\<close>

theorem end_to_end_record:
  assumes "getTrackName h = Inr ''Monza''" "getDriverName h = Inr ''Ayrton''"
    "getCarName h = Inr ''F1_2020''"
    "getCarState h SpeedKMH = Inr (PFloat (float_lit (2107 / 10)))"
    "getCarState h Gas = Inr (PFloat (float_lit (8 / 10)))"
    "getCarState h Brake = Inr (PFloat (float_lit 0))"
    "getCarState h LapCount = Inr (PInt 3)"
    "getCarState h LastLap = Inr (PFloat (float_lit (91123 / 1000)))"
    "getCarState h WorldPosition =
       Inr (PSeq [PFloat (float_lit 10), PFloat (float_lit 0), PFloat (float_lit 20)])"
    and "timer_ok s" "finite_double now" "1 / 10 \<le> elapsed now s"
    and "dumps h scenario_record = Inr d" "sendto h d (UDP_HOST, UDP_PORT) = None"
  shows "build_payload h = Inr scenario_record \<and>
    acUpdate h now s = (None, s\<lparr>last_send := now, sent := sent s @ [(d, UDP_HOST, UDP_PORT)]\<rparr>)"
proof -
  have pl: "build_payload h = Inr scenario_record"
    using assms(1-9) by (rule scenario_payload)
  with acUpdate_publish[OF assms(10-12) pl assms(13,14)] show ?thesis by simp
qed

theorem end_to_end_record_witness:
  "getTrackName scenario_host = Inr ''Monza'' \<and> getDriverName scenario_host = Inr ''Ayrton'' \<and>
   getCarName scenario_host = Inr ''F1_2020'' \<and>
   getCarState scenario_host SpeedKMH = Inr (PFloat (float_lit (2107 / 10))) \<and>
   getCarState scenario_host Gas = Inr (PFloat (float_lit (8 / 10))) \<and>
   getCarState scenario_host Brake = Inr (PFloat (float_lit 0)) \<and>
   getCarState scenario_host LapCount = Inr (PInt 3) \<and>
   getCarState scenario_host LastLap = Inr (PFloat (float_lit (91123 / 1000))) \<and>
   getCarState scenario_host WorldPosition =
     Inr (PSeq [PFloat (float_lit 10), PFloat (float_lit 0), PFloat (float_lit 20)]) \<and>
   timer_ok (init_state None) \<and> finite_double (Fin 1) \<and> 1 / 10 \<le> elapsed (Fin 1) (init_state None) \<and>
   dumps scenario_host scenario_record = Inr ''trackdrivercarlaplastLapdeltaspeedthrottlebrakexy'' \<and>
   sendto scenario_host ''trackdrivercarlaplastLapdeltaspeedthrottlebrakexy'' (UDP_HOST, UDP_PORT) = None \<and>
   build_payload scenario_host = Inr scenario_record \<and>
   acUpdate scenario_host (Fin 1) (init_state None) =
     (None, (init_state None)\<lparr>last_send := Fin 1,
        sent := sent (init_state None) @ [(''trackdrivercarlaplastLapdeltaspeedthrottlebrakexy'', UDP_HOST, UDP_PORT)]\<rparr>)"
proof -
  have r: "getTrackName scenario_host = Inr ''Monza''" "getDriverName scenario_host = Inr ''Ayrton''"
    "getCarName scenario_host = Inr ''F1_2020''"
    "getCarState scenario_host SpeedKMH = Inr (PFloat (float_lit (2107 / 10)))"
    "getCarState scenario_host Gas = Inr (PFloat (float_lit (8 / 10)))"
    "getCarState scenario_host Brake = Inr (PFloat (float_lit 0))"
    "getCarState scenario_host LapCount = Inr (PInt 3)"
    "getCarState scenario_host LastLap = Inr (PFloat (float_lit (91123 / 1000)))"
    "getCarState scenario_host WorldPosition =
       Inr (PSeq [PFloat (float_lit 10), PFloat (float_lit 0), PFloat (float_lit 20)])"
    by (simp_all add: scenario_host_def scenario_state_def)
  have ok: "timer_ok (init_state None)" "finite_double (Fin 1)" "1 / 10 \<le> elapsed (Fin 1) (init_state None)"
    by (simp_all add: timer_ok_def finite_double_def is_double_def elapsed_def init_state_def)
  have d: "dumps scenario_host scenario_record = Inr ''trackdrivercarlaplastLapdeltaspeedthrottlebrakexy''"
    by (simp add: scenario_host_def scenario_record_def)
  have s: "sendto scenario_host ''trackdrivercarlaplastLapdeltaspeedthrottlebrakexy'' (UDP_HOST, UDP_PORT) = None"
    by (simp add: scenario_host_def)
  from end_to_end_record[OF r ok d s] r ok d s show ?thesis by blast
qed

text \<open>
  C7, amended. The formatter maps \<open>None\<close> and every non-positive number to the empty
  string. A positive integer, and a positive float below \<open>2 ^ 53\<close>, of \<open>s\<close> seconds is mapped
  to \<open>lap_time_text s\<close>: the minutes \<open>floor (s / 60)\<close>, a colon, and the remainder
  \<open>s - 60 * floor (s / 60)\<close> with three decimals, padded with zeros to six characters. In
  particular 65.25 gives \<open>1:05.250\<close> and 125.4 gives \<open>2:05.400\<close>.
\<close>

theorem lap_time_format:
  "format_lap_time PNone = Inr []
   \<and> (\<forall>n. n \<le> 0 \<longrightarrow> format_lap_time (PInt n) = Inr [])
   \<and> (\<forall>f. float_le f (Fin 0) \<longrightarrow> format_lap_time (PFloat f) = Inr [])
   \<and> (\<forall>n. 0 < n \<longrightarrow> format_lap_time (PInt n) = Inr (lap_time_text (of_int n)))
   \<and> (\<forall>s. is_double s \<and> 0 < s \<and> s < 2 ^ 53 \<longrightarrow>
         format_lap_time (PFloat (Fin s)) = Inr (lap_time_text s))
   \<and> format_lap_time (PFloat (float_lit (6525 / 100))) = Inr ''1:05.250''
   \<and> format_lap_time (PFloat (float_lit (1254 / 10))) = Inr ''2:05.400''"
proof (intro conjI allI impI)
  show "format_lap_time PNone = Inr []" by (simp add: format_lap_time_def)
  show "format_lap_time (PInt n) = Inr []" if "n \<le> 0" for n
    using that by (simp add: format_lap_time_def exn_bind_def)
  show "format_lap_time (PFloat f) = Inr []" if "float_le f (Fin 0)" for f
    using that by (rule format_lap_time_nonpos_float)
  show "format_lap_time (PInt n) = Inr (lap_time_text (of_int n))" if "0 < n" for n
    using that by (rule format_lap_time_int)
  show "format_lap_time (PFloat (Fin s)) = Inr (lap_time_text s)"
    if "is_double s \<and> 0 < s \<and> s < 2 ^ 53" for s
    using that format_lap_time_float by blast
  show "format_lap_time (PFloat (float_lit (6525 / 100))) = Inr ''1:05.250''"
    using fmt_65_25 by simp
  show "format_lap_time (PFloat (float_lit (1254 / 10))) = Inr ''2:05.400''"
    using fmt_125_4 by simp
qed

theorem lap_time_format_witness:
  "(- 3 \<le> (0::int) \<and> format_lap_time (PInt (- 3)) = Inr [])
   \<and> (float_le NegZero (Fin 0) \<and> format_lap_time (PFloat NegZero) = Inr [])
   \<and> ((0::int) < 65 \<and> format_lap_time (PInt 65) = Inr ''1:05.000'')
   \<and> (is_double (261 / 4) \<and> (0::rat) < 261 / 4 \<and> (261 / 4 :: rat) < 2 ^ 53 \<and>
        format_lap_time (PFloat (Fin (261 / 4))) = Inr ''1:05.250'')"
proof -
  note t = lap_time_format
  have 1: "format_lap_time (PInt (- 3)) = Inr []" using t by simp
  have 2: "float_le NegZero (Fin 0)" by (simp add: float_le_def)
  then have 3: "format_lap_time (PFloat NegZero) = Inr []" using t by blast
  have "format_lap_time (PInt 65) = Inr (lap_time_text (of_int 65))" using t by simp
  then have 4: "format_lap_time (PInt 65) = Inr ''1:05.000''" by (simp add: text_eval)
  have 5: "is_double (261 / 4)" "(0::rat) < 261 / 4" "(261 / 4 :: rat) < 2 ^ 53"
    using dbl_65_25 by simp_all
  then have "format_lap_time (PFloat (Fin (261 / 4))) = Inr (lap_time_text (261 / 4))"
    using t by blast
  then have 6: "format_lap_time (PFloat (Fin (261 / 4))) = Inr ''1:05.250''" by (simp add: text_eval)
  from 1 2 3 4 5 6 show ?thesis by simp
qed

text \<open>
  As first stated, the property covered every positive input. The double \<open>2 ^ 60 + 2 ^ 10\<close>
  is positive, and the floating-point floor division loses the last minute: the formatter
  returns \<open>19215358410114132:00.000\<close> where the formula gives \<open>19215358410114133:20.000\<close>.
\<close>

theorem lap_time_formula_counterexample:
  "is_double (2 ^ 60 + 2 ^ 10) \<and> (0::rat) < 2 ^ 60 + 2 ^ 10 \<and>
   format_lap_time (PFloat (Fin (2 ^ 60 + 2 ^ 10))) = Inr ''19215358410114132:00.000'' \<and>
   lap_time_text (2 ^ 60 + 2 ^ 10) = ''19215358410114133:20.000'' \<and>
   format_lap_time (PFloat (Fin (2 ^ 60 + 2 ^ 10))) \<noteq> Inr (lap_time_text (2 ^ 60 + 2 ^ 10))"
  using big_double big_format big_text by simp

text \<open>
  C8. The \<open>throttle\<close> and \<open>brake\<close> entries of the record are \<open>int((v or 0) * 100)\<close> of
  the values read. For a read \<open>t\<close> between 0 and 1 the entry is the integer part of the
  double nearest to \<open>100 * t\<close>: an integer \<open>p\<close> between 0 and 100 with
  \<open>floor (100 * t) \<le> p \<le> floor (100 * t + 2 ^ - 47)\<close>, and the record is built with it whatever
  the pedal read was before. \<open>None\<close> gives 0, 0.5 gives 50, 1.0 gives 100, and an integer
  \<open>n\<close> gives \<open>100 * n\<close>.
\<close>

theorem percent_fields:
  assumes "build_payload h = Inr pl"
  shows "(\<exists>g p. getCarState h Gas = Inr g \<and> to_percent g = Inr p \<and>
            map_of pl ''throttle'' = Some (JVal (PInt p)))
     \<and> (\<exists>b p. getCarState h Brake = Inr b \<and> to_percent b = Inr p \<and>
            map_of pl ''brake'' = Some (JVal (PInt p)))
     \<and> (\<forall>t. 0 \<le> t \<and> t \<le> 1 \<longrightarrow>
          (\<exists>p. to_percent (PFloat (Fin t)) = Inr p \<and> p = \<lfloor>nearest (t * 100)\<rfloor> \<and>
             \<lfloor>t * 100\<rfloor> \<le> p \<and> p \<le> \<lfloor>t * 100 + 1 / 2 ^ 47\<rfloor> \<and> 0 \<le> p \<and> p \<le> 100 \<and>
             build_payload (with_read h Gas (PFloat (Fin t))) =
               Inr (pl[7 := (''throttle'', JVal (PInt p))]) \<and>
             build_payload (with_read h Brake (PFloat (Fin t))) =
               Inr (pl[8 := (''brake'', JVal (PInt p))])))
     \<and> to_percent PNone = Inr 0
     \<and> build_payload (with_read h Gas PNone) = Inr (pl[7 := (''throttle'', JVal (PInt 0))])
     \<and> build_payload (with_read h Brake PNone) = Inr (pl[8 := (''brake'', JVal (PInt 0))])
     \<and> to_percent (PFloat (float_lit (1 / 2))) = Inr 50
     \<and> to_percent (PFloat (float_lit 1)) = Inr 100
     \<and> (\<forall>n. to_percent (PInt n) = Inr (n * 100))"
proof -
  from assms have entries: "(\<exists>g p. getCarState h Gas = Inr g \<and> to_percent g = Inr p \<and>
            map_of pl ''throttle'' = Some (JVal (PInt p)))
     \<and> (\<exists>b p. getCarState h Brake = Inr b \<and> to_percent b = Inr p \<and>
            map_of pl ''brake'' = Some (JVal (PInt p)))"
    by (elim build_payload_InrE) simp
  have unit: "\<exists>p. to_percent (PFloat (Fin t)) = Inr p \<and> p = \<lfloor>nearest (t * 100)\<rfloor> \<and>
             \<lfloor>t * 100\<rfloor> \<le> p \<and> p \<le> \<lfloor>t * 100 + 1 / 2 ^ 47\<rfloor> \<and> 0 \<le> p \<and> p \<le> 100 \<and>
             build_payload (with_read h Gas (PFloat (Fin t))) =
               Inr (pl[7 := (''throttle'', JVal (PInt p))]) \<and>
             build_payload (with_read h Brake (PFloat (Fin t))) =
               Inr (pl[8 := (''brake'', JVal (PInt p))])"
    if t: "0 \<le> t \<and> t \<le> 1" for t
  proof -
    define p where "p = \<lfloor>nearest (t * 100)\<rfloor>"
    have p: "to_percent (PFloat (Fin t)) = Inr p" "\<lfloor>t * 100\<rfloor> \<le> p" "p \<le> \<lfloor>t * 100 + 1 / 2 ^ 47\<rfloor>"
      using to_percent_unit[of t] t by (simp_all add: p_def)
    have "0 \<le> \<lfloor>t * 100\<rfloor>" using t by simp
    then have lo: "0 \<le> p" using p(2) by linarith
    have "t * 100 + 1 / 2 ^ 47 < 101" using t by simp
    then have "\<lfloor>t * 100 + 1 / 2 ^ 47\<rfloor> < 101" by (simp add: floor_less_iff)
    then have hi: "p \<le> 100" using p(3) by linarith
    show ?thesis
      using p lo hi build_payload_throttle[OF assms p(1)] build_payload_brake[OF assms p(1)]
      by (simp add: p_def)
  qed
  have none: "to_percent PNone = Inr 0" by (rule to_percent_None)
  have ints: "to_percent (PInt n) = Inr (n * 100)" for n
    by (simp add: to_percent_def py_or_zero_def exn_bind_def)
  show ?thesis
    using entries unit none build_payload_throttle[OF assms none] build_payload_brake[OF assms none]
      to_percent_half to_percent_one ints
    by (intro conjI allI impI) blast+
qed

text \<open>The scenario, and the scenario with the throttle at a quarter and no brake value.\<close>

theorem percent_fields_witness:
  "build_payload scenario_host = Inr scenario_record \<and>
   getCarState scenario_host Gas = Inr (PFloat (float_lit (8 / 10))) \<and>
   map_of scenario_record ''throttle'' = Some (JVal (PInt 80)) \<and>
   to_percent (PFloat (float_lit (8 / 10))) = Inr 80 \<and>
   (0::rat) \<le> 1 / 4 \<and> (1 / 4 :: rat) \<le> 1 \<and>
   to_percent (PFloat (Fin (1 / 4))) = Inr 25 \<and>
   build_payload (with_read scenario_host Gas (PFloat (Fin (1 / 4)))) =
     Inr (scenario_record[7 := (''throttle'', JVal (PInt 25))]) \<and>
   build_payload (with_read scenario_host Brake PNone) =
     Inr (scenario_record[8 := (''brake'', JVal (PInt 0))])"
proof -
  note t = percent_fields[OF scenario_host_payload]
  have g: "getCarState scenario_host Gas = Inr (PFloat (float_lit (8 / 10)))"
    by (simp add: scenario_host_def scenario_state_def)
  have m: "map_of scenario_record ''throttle'' = Some (JVal (PInt 80))"
    by (simp add: scenario_record_def)
  from t obtain g' p where "getCarState scenario_host Gas = Inr g'" "to_percent g' = Inr p"
    "map_of scenario_record ''throttle'' = Some (JVal (PInt p))" by blast
  with g m have 1: "to_percent (PFloat (float_lit (8 / 10))) = Inr 80" by simp
  have q: "0 \<le> (1 / 4 :: rat) \<and> (1 / 4 :: rat) \<le> 1" by simp
  from t have "\<forall>t. 0 \<le> t \<and> t \<le> 1 \<longrightarrow>
          (\<exists>p. to_percent (PFloat (Fin t)) = Inr p \<and> p = \<lfloor>nearest (t * 100)\<rfloor> \<and>
             \<lfloor>t * 100\<rfloor> \<le> p \<and> p \<le> \<lfloor>t * 100 + 1 / 2 ^ 47\<rfloor> \<and> 0 \<le> p \<and> p \<le> 100 \<and>
             build_payload (with_read scenario_host Gas (PFloat (Fin t))) =
               Inr (scenario_record[7 := (''throttle'', JVal (PInt p))]) \<and>
             build_payload (with_read scenario_host Brake (PFloat (Fin t))) =
               Inr (scenario_record[8 := (''brake'', JVal (PInt p))]))"
    by (elim conjE)
  from this[rule_format, OF q] obtain p where p: "to_percent (PFloat (Fin (1 / 4))) = Inr p"
    "\<lfloor>(1 / 4 :: rat) * 100\<rfloor> \<le> p" "p \<le> \<lfloor>(1 / 4 :: rat) * 100 + 1 / 2 ^ 47\<rfloor>"
    "build_payload (with_read scenario_host Gas (PFloat (Fin (1 / 4)))) =
        Inr (scenario_record[7 := (''throttle'', JVal (PInt p))])"
    by blast
  from p(2,3) have "p = 25" by simp
  with p have 2: "to_percent (PFloat (Fin (1 / 4))) = Inr 25"
    "build_payload (with_read scenario_host Gas (PFloat (Fin (1 / 4)))) =
       Inr (scenario_record[7 := (''throttle'', JVal (PInt 25))])"
    by simp_all
  from t have 3: "build_payload (with_read scenario_host Brake PNone) =
     Inr (scenario_record[8 := (''brake'', JVal (PInt 0))])" by blast
  from scenario_host_payload g m 1 2 3 show ?thesis by simp
qed

text \<open>
  C9. On a host where a record is built, let the world-position read return the vector
  \<open>vs\<close> instead. The record is built again, whatever the length of \<open>vs\<close>, and differs only
  in its last two entries: \<open>x\<close> is the first component of \<open>vs\<close> (the integer 0 when \<open>vs\<close> is
  empty) and \<open>y\<close> is the third one (0 when \<open>vs\<close> has fewer than three components). So
  \<open>[1.0, 99.0, 2.0]\<close> gives 1.0 and 2.0, and \<open>[5.0]\<close> gives 5.0 and 0.
\<close>

theorem position_fields:
  assumes "build_payload h = Inr pl"
  shows "(\<exists>pl'. build_payload (with_read h WorldPosition (PSeq vs)) = Inr pl'
            \<and> pl' = pl[9 := (''x'', JVal (if vs = [] then PInt 0 else vs ! 0)),
                      10 := (''y'', JVal (if length vs < 3 then PInt 0 else vs ! 2))]
            \<and> map_of pl' ''x'' = Some (JVal (if vs = [] then PInt 0 else vs ! 0))
            \<and> map_of pl' ''y'' = Some (JVal (if length vs < 3 then PInt 0 else vs ! 2)))
     \<and> build_payload (with_read h WorldPosition
           (PSeq [PFloat (float_lit 1), PFloat (float_lit 99), PFloat (float_lit 2)])) =
         Inr (pl[9 := (''x'', JVal (PFloat (Fin 1))), 10 := (''y'', JVal (PFloat (Fin 2)))])
     \<and> build_payload (with_read h WorldPosition (PSeq [PFloat (float_lit 5)])) =
         Inr (pl[9 := (''x'', JVal (PFloat (Fin 5))), 10 := (''y'', JVal (PInt 0))])"
proof -
  have b: "build_payload (with_read h WorldPosition (PSeq us)) =
     Inr (pl[9 := (''x'', JVal (if us = [] then PInt 0 else us ! 0)),
             10 := (''y'', JVal (if length us < 3 then PInt 0 else us ! 2))])" for us
    using assms by (rule build_payload_position)
  have m: "map_of (pl[9 := (''x'', X), 10 := (''y'', Y)]) ''x'' = Some X \<and>
      map_of (pl[9 := (''x'', X), 10 := (''y'', Y)]) ''y'' = Some Y" for X Y
    using assms by (elim build_payload_InrE) simp
  have 1: "build_payload (with_read h WorldPosition
           (PSeq [PFloat (float_lit 1), PFloat (float_lit 99), PFloat (float_lit 2)])) =
         Inr (pl[9 := (''x'', JVal (PFloat (Fin 1))), 10 := (''y'', JVal (PFloat (Fin 2)))])"
    by (simp add: b lit_numeral lit_1)
  have 2: "build_payload (with_read h WorldPosition (PSeq [PFloat (float_lit 5)])) =
         Inr (pl[9 := (''x'', JVal (PFloat (Fin 5))), 10 := (''y'', JVal (PInt 0))])"
    by (simp add: b lit_numeral)
  from b[of vs] m 1 2 show ?thesis by blast
qed

text \<open>The scenario with an empty vector, with two components, and with the vector \<open>[5.0]\<close>.\<close>

theorem position_fields_witness:
  "build_payload scenario_host = Inr scenario_record
   \<and> build_payload (with_read scenario_host WorldPosition (PSeq [])) =
       Inr (scenario_record[9 := (''x'', JVal (PInt 0)), 10 := (''y'', JVal (PInt 0))])
   \<and> build_payload (with_read scenario_host WorldPosition (PSeq [PFloat (Fin 3), PFloat (Fin 4)])) =
       Inr (scenario_record[9 := (''x'', JVal (PFloat (Fin 3))), 10 := (''y'', JVal (PInt 0))])
   \<and> map_of (scenario_record[9 := (''x'', JVal (PFloat (Fin 3))), 10 := (''y'', JVal (PInt 0))]) ''x'' =
       Some (JVal (PFloat (Fin 3)))
   \<and> map_of (scenario_record[9 := (''x'', JVal (PFloat (Fin 3))), 10 := (''y'', JVal (PInt 0))]) ''y'' =
       Some (JVal (PInt 0))
   \<and> build_payload (with_read scenario_host WorldPosition (PSeq [PFloat (float_lit 5)])) =
       Inr (scenario_record[9 := (''x'', JVal (PFloat (Fin 5))), 10 := (''y'', JVal (PInt 0))])"
proof -
  note t = position_fields[OF scenario_host_payload]
  have 1: "build_payload (with_read scenario_host WorldPosition (PSeq [])) =
       Inr (scenario_record[9 := (''x'', JVal (PInt 0)), 10 := (''y'', JVal (PInt 0))])"
    using t[of "[]"] by simp
  have 2: "build_payload (with_read scenario_host WorldPosition (PSeq [PFloat (Fin 3), PFloat (Fin 4)])) =
       Inr (scenario_record[9 := (''x'', JVal (PFloat (Fin 3))), 10 := (''y'', JVal (PInt 0))])
     \<and> map_of (scenario_record[9 := (''x'', JVal (PFloat (Fin 3))), 10 := (''y'', JVal (PInt 0))]) ''x'' =
       Some (JVal (PFloat (Fin 3)))
     \<and> map_of (scenario_record[9 := (''x'', JVal (PFloat (Fin 3))), 10 := (''y'', JVal (PInt 0))]) ''y'' =
       Some (JVal (PInt 0))"
    using t[of "[PFloat (Fin 3), PFloat (Fin 4)]"] by simp
  have 3: "build_payload (with_read scenario_host WorldPosition (PSeq [PFloat (float_lit 5)])) =
       Inr (scenario_record[9 := (''x'', JVal (PFloat (Fin 5))), 10 := (''y'', JVal (PInt 0))])"
    using t[of "[]"] by simp
  from scenario_host_payload 1 2 3 show ?thesis by simp
qed

text \<open>Every double from 59.9995 up to 60 is rendered with 60.000 seconds.\<close>

lemma render_sixty_range:
  assumes "is_double s" "119999 / 2000 \<le> s" "s < 60"
  shows "format_lap_time (PFloat (Fin s)) = Inr ''0:60.000''"
proof -
  have pos: "0 < s" "s < 2 ^ 53" using assms(2,3) by simp_all
  have fl: "\<lfloor>s / 60\<rfloor> = 0" using assms(2,3) by (simp add: floor_eq_iff)
  have r: "round_half_even (s * 1000) = 60000"
  proof (cases "s = 119999 / 2000")
    case True
    then have e: "s * 1000 = 119999 / 2" by simp
    show ?thesis unfolding e by (simp add: round_half_even_def Let_def)
  next
    case False
    then have "\<bar>s * 1000 - of_int 60000\<bar> < 1 / 2" using assms(2,3) by simp
    then show ?thesis by (rule round_half_even_nearest)
  qed
  have "lap_time_text s = ''0:60.000''"
    by (simp add: lap_time_text_def fl fmt_d_def fixed3_def r Let_def dec_digits_numeral
        dec_digits_0 digit_char_def char_of_def eval_nat_numeral)
  then show ?thesis using format_lap_time_float[OF assms(1) pos] by simp
qed

text \<open>
  C10, amended. Some positive lap time below 60 seconds, for example 59.9996, is rendered
  \<open>0:60.000\<close>: the minutes are floored, the remainder is rounded to three decimals on its
  own, and nothing is carried into the minutes.
\<close>

theorem seconds_render_as_sixty:
  "float_lt (Fin 0) (float_lit (599996 / 10000)) \<and> float_lt (float_lit (599996 / 10000)) (Fin 60) \<and>
   format_lap_time (PFloat (float_lit (599996 / 10000))) = Inr ''0:60.000''"
  using fmt_59_9996 by (simp add: lit_59_9996)

text \<open>
  The example first given, 59.9995, is not such an input: the nearest double lies below
  59.9995 and is rendered \<open>0:59.999\<close>.
\<close>

theorem sixty_example_counterexample:
  "format_lap_time (PFloat (float_lit (599995 / 10000))) = Inr ''0:59.999'' \<and>
   format_lap_time (PFloat (float_lit (599995 / 10000))) \<noteq> Inr ''0:60.000''"
  using fmt_59_9995 by simp

end
